theory Spec2Isabelle
  imports Complex_Main "HOL-Library.Char_ord" "HOL-Library.List_Lexorder" "HOL-Library.Multiset"
begin

section \<open>The coffeeshop sales dashboard (dashboard.py)\<close>

text \<open>
  The program is one Python script: \<^verbatim>\<open>load_data\<close> reads a spreadsheet into a pandas
  DataFrame, normalises its column names and coerces five columns; the rest of the script
  builds a boolean mask from the sidebar widgets, selects the rows that pass
  (\<^verbatim>\<open>filtered = df[mask]\<close>), sums \<^verbatim>\<open>Total_Penjualan\<close> per group for three charts and
  formats a copy of the filtered table for display.

  A DataFrame is modelled as the list of its columns in order, each a label with its cells;
  labels may repeat, as in pandas, and are text (a sheet whose header row holds numbers or
  dates is not covered). What pandas, numpy and Python do inside
  one call is not part of the repository. The model fixes only what holds of every such
  call and takes the rest as parameters, collected in the record \<open>library\<close>: which
  texts \<^verbatim>\<open>read_excel\<close> reads as missing besides the empty one, how a text with
  characters beyond ASCII is trimmed and lowercased, what \<^verbatim>\<open>to_numeric\<close> and
  \<^verbatim>\<open>to_datetime\<close> read from a cell that is neither missing nor already a float or a
  timestamp (this may depend on the other cells of the column), how \<^verbatim>\<open>str\<close> renders a
  value that is not text, what a cast to int64 yields out of range, how float64 values are
  summed, and which order the default sort gives the rows. Timestamps are integer
  nanoseconds since the epoch. The memoisation of \<^verbatim>\<open>load_data\<close> by
  \<^verbatim>\<open>st.cache_data\<close> does not change what it returns and is left out, as are the charts,
  which only show the values computed here.
\<close>

subsection \<open>Cells, frames, errors\<close>

type_synonym timestamp = int

text \<open>
  A float64 that is not NaN: a finite value, which is a real number, the negative zero, or
  an infinity. NaN is the missing value: \<open>Missing\<close> as a cell, \<open>None\<close> in a column of
  numbers.
\<close>

datatype float64 = Finite real | NegZero | PosInf | NegInf

datatype cell =
    Missing
  | Float float64
  | Integer int
  | Text string
  | Timestamp timestamp
  | Flag bool

type_synonym series = "cell list"

type_synonym frame = "(string \<times> series) list"

datatype error =
    FileError string
  | KeyError string
  | NotASeries string
  | TypeError
  | IntCastingNaNError
  | WidgetError

type_synonym files = "string \<Rightarrow> error + frame"

record library =
  na_text :: "string \<Rightarrow> bool"
  unicode_strip :: "string \<Rightarrow> string"
  unicode_lower :: "string \<Rightarrow> string"
  parse_number :: "series \<Rightarrow> cell \<Rightarrow> float64 option"
  parse_datetime :: "series \<Rightarrow> cell \<Rightarrow> timestamp option"
  render :: "cell \<Rightarrow> char \<times> string"
  cast_int64 :: "real \<Rightarrow> int"
  sum64 :: "float64 list \<Rightarrow> float64 option"
  argsort_desc :: "float64 option list \<Rightarrow> nat list"

definition and_then :: "error + 'a \<Rightarrow> ('a \<Rightarrow> error + 'b) \<Rightarrow> error + 'b" where
  "and_then r f = (case r of Inl e \<Rightarrow> Inl e | Inr x \<Rightarrow> f x)"

fun traverse :: "('a \<Rightarrow> error + 'b) \<Rightarrow> 'a list \<Rightarrow> error + 'b list" where
  "traverse f [] = Inr []"
| "traverse f (x # xs) =
     (case f x of
        Inl e \<Rightarrow> Inl e
      | Inr y \<Rightarrow> (case traverse f xs of Inl e \<Rightarrow> Inl e | Inr ys \<Rightarrow> Inr (y # ys)))"

subsection \<open>Column labels: \<^verbatim>\<open>str.strip\<close>, \<^verbatim>\<open>str.lower\<close>, \<^verbatim>\<open>rename\<close>\<close>

text \<open>
  \<^verbatim>\<open>str.strip()\<close> and \<^verbatim>\<open>str.lower()\<close>. A label is a byte string (UTF-8). On a label of
  ASCII characters only, Python trims the ten ASCII white-space characters and lowercases
  the letters A to Z; on any other label the result is the library's.
\<close>

definition is_ascii :: "string \<Rightarrow> bool" where
  "is_ascii s = list_all (\<lambda>c. of_char c < (128 :: nat)) s"

definition is_space :: "char \<Rightarrow> bool" where
  "is_space c = (of_char c \<in> {9, 10, 11, 12, 13, 28, 29, 30, 31, 32 :: nat})"

definition ascii_strip :: "string \<Rightarrow> string" where
  "ascii_strip s = rev (dropWhile is_space (rev (dropWhile is_space s)))"

definition strip :: "library \<Rightarrow> string \<Rightarrow> string" where
  "strip P s = (if is_ascii s then ascii_strip s else unicode_strip P s)"

definition lower_char :: "char \<Rightarrow> char" where
  "lower_char c =
     (case map_of (zip ''ABCDEFGHIJKLMNOPQRSTUVWXYZ'' ''abcdefghijklmnopqrstuvwxyz'') c of
        Some d \<Rightarrow> d
      | None \<Rightarrow> c)"

definition lower :: "library \<Rightarrow> string \<Rightarrow> string" where
  "lower P s = (if is_ascii s then map lower_char s else unicode_lower P s)"

definition columns :: "frame \<Rightarrow> string list" where
  "columns df = map fst df"

definition rename_columns :: "(string \<Rightarrow> string) \<Rightarrow> frame \<Rightarrow> frame" where
  "rename_columns f df = map (\<lambda>(c, s). (f c, s)) df"

text \<open>\<^verbatim>\<open>df.rename(columns={old: new})\<close>: every column labelled \<open>old\<close> is relabelled.\<close>

definition rename_column :: "string \<Rightarrow> string \<Rightarrow> frame \<Rightarrow> frame" where
  "rename_column old new df = rename_columns (\<lambda>c. if c = old then new else c) df"

definition expected :: "string list" where
  "expected = [''Tanggal'', ''Kategori'', ''Nama_Item'', ''Jumlah'', ''Total_Penjualan'']"

text \<open>
  \<^verbatim>\<open>lower_map = {c.lower(): c for c in df.columns}\<close>: the dictionary is filled in column
  order, so of several labels with one lowercase form the last one stays.
\<close>

definition lower_map :: "library \<Rightarrow> string list \<Rightarrow> (string \<rightharpoonup> string)" where
  "lower_map P cols = fold (\<lambda>c m. m(lower P c \<mapsto> c)) cols Map.empty"

text \<open>
  The loop over \<open>expected\<close>. \<open>lm\<close> is computed once, before the loop; the test
  \<^verbatim>\<open>col not in df.columns\<close> reads the frame as renamed so far.
\<close>

fun resolve_columns ::
  "library \<Rightarrow> (string \<rightharpoonup> string) \<Rightarrow> string list \<Rightarrow> frame \<Rightarrow> frame" where
  "resolve_columns P lm [] df = df"
| "resolve_columns P lm (col # rest) df =
     resolve_columns P lm rest
       (if col \<notin> set (columns df) then
          (case lm (lower P col) of
             Some c \<Rightarrow> rename_column c col df
           | None \<Rightarrow> df)
        else df)"

subsection \<open>Type coercion\<close>

text \<open>
  \<^verbatim>\<open>pd.to_datetime(s, errors="coerce")\<close> on the column \<open>s\<close>: a missing cell is NaT, a
  timestamp stays, any other cell is parsed (how, the library infers from the column) and
  becomes NaT when that fails.
\<close>

definition to_datetime :: "library \<Rightarrow> series \<Rightarrow> series" where
  "to_datetime P s =
     map (\<lambda>c. case c of
                Missing \<Rightarrow> Missing
              | Timestamp t \<Rightarrow> Timestamp t
              | _ \<Rightarrow> (case parse_datetime P s c of None \<Rightarrow> Missing | Some t \<Rightarrow> Timestamp t)) s"

text \<open>
  \<^verbatim>\<open>pd.to_numeric(s, errors="coerce")\<close> on the column \<open>s\<close>: \<open>None\<close> is NaN. A missing
  cell is NaN, a float is read as it is, and so is an integer that a float64 holds
  exactly; a larger integer, a text or any other cell is converted by the library (the
  integer may be rounded, the text parsed) and is NaN when that fails.
\<close>

definition to_numeric :: "library \<Rightarrow> series \<Rightarrow> float64 option list" where
  "to_numeric P s =
     map (\<lambda>c. case c of
                Missing \<Rightarrow> None
              | Float v \<Rightarrow> Some v
              | Integer i \<Rightarrow>
                  (if \<bar>i\<bar> \<le> 2 ^ 53 then Some (Finite (of_int i)) else parse_number P s c)
              | _ \<Rightarrow> parse_number P s c) s"

definition fillna :: "float64 \<Rightarrow> float64 option \<Rightarrow> float64" where
  "fillna v x = (case x of None \<Rightarrow> v | Some r \<Rightarrow> r)"

text \<open>
  \<^verbatim>\<open>astype(int)\<close> on a float64: an infinity makes pandas raise; a finite value loses its
  fraction, towards zero; when the result does not fit 64 bits the cast yields what the
  platform yields.
\<close>

definition trunc :: "real \<Rightarrow> int" where
  "trunc r = (if 0 \<le> r then \<lfloor>r\<rfloor> else \<lceil>r\<rceil>)"

definition astype_int :: "library \<Rightarrow> float64 \<Rightarrow> error + int" where
  "astype_int P v =
     (case v of
        Finite r \<Rightarrow>
          Inr (if - (2 ^ 63) \<le> trunc r \<and> trunc r < 2 ^ 63 then trunc r else cast_int64 P r)
      | NegZero \<Rightarrow> Inr 0
      | _ \<Rightarrow> Inl IntCastingNaNError)"

definition fillna_text :: "string \<Rightarrow> cell \<Rightarrow> cell" where
  "fillna_text v c = (case c of Missing \<Rightarrow> Text v | _ \<Rightarrow> c)"

text \<open>
  \<^verbatim>\<open>astype(str)\<close>: a text stays, any other value is rendered by \<^verbatim>\<open>str\<close>, which gives
  at least one character: \<open>render\<close> returns the first and the rest.
\<close>

definition astype_str :: "library \<Rightarrow> cell \<Rightarrow> string" where
  "astype_str P c = (case c of Text s \<Rightarrow> s | _ \<Rightarrow> fst (render P c) # snd (render P c))"

subsection \<open>Reading and writing columns\<close>

definition series_named :: "frame \<Rightarrow> string \<Rightarrow> series list" where
  "series_named df k = map snd (filter (\<lambda>(c, s). c = k) df)"

text \<open>
  \<^verbatim>\<open>df[k]\<close> used as a Series: KeyError when no column has the label; with a repeated
  label pandas hands back a DataFrame, on which the Series operations of this script
  (\<^verbatim>\<open>to_datetime\<close>, \<^verbatim>\<open>to_numeric\<close>, \<^verbatim>\<open>unique\<close>) raise.
\<close>

definition getitem :: "frame \<Rightarrow> string \<Rightarrow> error + series" where
  "getitem df k =
     (case series_named df k of
        [] \<Rightarrow> Inl (KeyError k)
      | [s] \<Rightarrow> Inr s
      | _ \<Rightarrow> Inl (NotASeries k))"

definition map_column :: "string \<Rightarrow> (cell \<Rightarrow> cell) \<Rightarrow> frame \<Rightarrow> frame" where
  "map_column k f df = map (\<lambda>(c, s). if c = k then (c, map f s) else (c, s)) df"

definition set_column :: "string \<Rightarrow> series \<Rightarrow> frame \<Rightarrow> frame" where
  "set_column k s' df = map (\<lambda>(c, s). if c = k then (c, s') else (c, s)) df"

text \<open>
  \<^verbatim>\<open>df[k] = convert(df[k])\<close> where \<open>convert\<close> needs a Series and may raise.
\<close>

definition assign_series ::
  "string \<Rightarrow> (series \<Rightarrow> error + series) \<Rightarrow> frame \<Rightarrow> error + frame" where
  "assign_series k convert df =
     and_then (getitem df k) (\<lambda>s.
     and_then (convert s) (\<lambda>s'. Inr (set_column k s' df)))"

text \<open>
  \<^verbatim>\<open>df[k] = df[k].fillna(v).astype(str)\<close>: both methods also exist on a DataFrame, so
  with a repeated label every column of that label is converted.
\<close>

definition assign_columns :: "string \<Rightarrow> (cell \<Rightarrow> cell) \<Rightarrow> frame \<Rightarrow> error + frame" where
  "assign_columns k f df =
     (if k \<notin> set (columns df) then Inl (KeyError k) else Inr (map_column k f df))"

subsection \<open>\<^verbatim>\<open>load_data\<close>\<close>

text \<open>
  \<open>fs path\<close> is what the spreadsheet reader finds at \<open>path\<close>: the sheet, or the
  exception it raises. \<^verbatim>\<open>pd.read_excel(path)\<close>, called with its defaults, makes the
  frame of the sheet; a cell that holds the empty text, as every empty cell of a sheet
  does, is read as NaN, and so is a text in the library's list of spellings of a missing
  value. An exception of any statement leaves \<^verbatim>\<open>load_data\<close> at once.
\<close>

definition na_filter :: "library \<Rightarrow> cell \<Rightarrow> cell" where
  "na_filter P c = (case c of Text s \<Rightarrow> if s = [] \<or> na_text P s then Missing else c | _ \<Rightarrow> c)"

definition read_excel :: "files \<Rightarrow> library \<Rightarrow> string \<Rightarrow> error + frame" where
  "read_excel fs P path =
     and_then (fs path) (\<lambda>sheet. Inr (map (\<lambda>(c, s). (c, map (na_filter P) s)) sheet))"

text \<open>Lines 32-40: the labels are trimmed, then the expected columns are resolved.\<close>

definition normalise_columns :: "library \<Rightarrow> frame \<Rightarrow> frame" where
  "normalise_columns P df0 =
     (let df1 = rename_columns (strip P) df0;
          lm = lower_map P (columns df1)
      in resolve_columns P lm expected df1)"

text \<open>Lines 43-49: the five column assignments, in order.\<close>

definition jumlah_series :: "library \<Rightarrow> series \<Rightarrow> error + series" where
  "jumlah_series P s =
     and_then (traverse (astype_int P) (map (fillna (Finite 0)) (to_numeric P s)))
       (\<lambda>qs. Inr (map Integer qs))"

definition total_series :: "library \<Rightarrow> series \<Rightarrow> series" where
  "total_series P s = map (\<lambda>v. Float (fillna (Finite 0) v)) (to_numeric P s)"

definition coerce :: "library \<Rightarrow> frame \<Rightarrow> error + frame" where
  "coerce P df2 =
     and_then (assign_series ''Tanggal'' (\<lambda>s. Inr (to_datetime P s)) df2) (\<lambda>df3.
     and_then (assign_series ''Jumlah'' (jumlah_series P) df3) (\<lambda>df4.
     and_then (assign_series ''Total_Penjualan'' (\<lambda>s. Inr (total_series P s)) df4) (\<lambda>df5.
     and_then (assign_columns ''Kategori''
                 (\<lambda>c. Text (astype_str P (fillna_text ''Tidak diketahui'' c))) df5) (\<lambda>df6.
     assign_columns ''Nama_Item''
                 (\<lambda>c. Text (astype_str P (fillna_text ''Tidak diketahui'' c))) df6))))"

definition load_data :: "files \<Rightarrow> library \<Rightarrow> string \<Rightarrow> error + frame" where
  "load_data fs P path =
     and_then (read_excel fs P path) (\<lambda>df0. coerce P (normalise_columns P df0))"

subsection \<open>Typed views of a column\<close>

fun as_datetime :: "cell \<Rightarrow> error + timestamp option" where
  "as_datetime Missing = Inr None"
| "as_datetime (Timestamp t) = Inr (Some t)"
| "as_datetime _ = Inl TypeError"

fun as_float :: "cell \<Rightarrow> error + float64" where
  "as_float (Float v) = Inr v"
| "as_float (Integer i) = Inr (Finite (of_int i))"
| "as_float _ = Inl TypeError"

fun as_text :: "cell \<Rightarrow> error + string" where
  "as_text (Text s) = Inr s"
| "as_text _ = Inl TypeError"

definition datetime_column :: "frame \<Rightarrow> string \<Rightarrow> error + timestamp option list" where
  "datetime_column df k = and_then (getitem df k) (traverse as_datetime)"

definition float_column :: "frame \<Rightarrow> string \<Rightarrow> error + float64 list" where
  "float_column df k = and_then (getitem df k) (traverse as_float)"

definition text_column :: "frame \<Rightarrow> string \<Rightarrow> error + string list" where
  "text_column df k = and_then (getitem df k) (traverse as_text)"

subsection \<open>The sidebar and the mask\<close>

text \<open>
  Line 64: the date widget is created with the value \<^verbatim>\<open>(min_date, max_date)\<close>. It shows
  and returns calendar dates (days since the epoch): the dates of the two timestamps
  until the user picks something (\<open>picked = None\<close>), then the user's choice, a tuple of
  two dates or fewer. With a NaT as value the widget raises.
\<close>

definition ns_per_day :: int where
  "ns_per_day = 86400000000000"

definition date_of :: "timestamp \<Rightarrow> int" where
  "date_of t = t div ns_per_day"

definition date_input ::
  "timestamp option \<Rightarrow> timestamp option \<Rightarrow> int list option \<Rightarrow> error + int list" where
  "date_input mn mx picked =
     (case (mn, mx) of
        (Some a, Some b) \<Rightarrow>
          Inr (case picked of None \<Rightarrow> [date_of a, date_of b] | Some r \<Rightarrow> r)
      | _ \<Rightarrow> Inl WidgetError)"

text \<open>
  A bound of the date range is a calendar date from the widget or, in the fallback of line
  65, the table's own \<^verbatim>\<open>min()\<close>/\<^verbatim>\<open>max()\<close>, a Timestamp or NaT. \<^verbatim>\<open>pd.to_datetime\<close>
  turns a calendar date into the timestamp of the midnight that starts it.
\<close>

datatype "when" = Day int | Instant "timestamp option"

definition to_datetime_scalar :: "when \<Rightarrow> timestamp option" where
  "to_datetime_scalar w = (case w of Day d \<Rightarrow> Some (d * ns_per_day) | Instant t \<Rightarrow> t)"

definition min_date :: "timestamp option list \<Rightarrow> timestamp option" where
  "min_date ts = (case [t. Some t \<leftarrow> ts] of [] \<Rightarrow> None | t # rest \<Rightarrow> Some (fold min rest t))"

definition max_date :: "timestamp option list \<Rightarrow> timestamp option" where
  "max_date ts = (case [t. Some t \<leftarrow> ts] of [] \<Rightarrow> None | t # rest \<Rightarrow> Some (fold max rest t))"

text \<open>Line 65.\<close>

definition date_bounds :: "int list \<Rightarrow> timestamp option \<Rightarrow> timestamp option \<Rightarrow> when \<times> when" where
  "date_bounds date_range mn mx =
     (case date_range of [a, b] \<Rightarrow> (Day a, Day b) | _ \<Rightarrow> (Instant mn, Instant mx))"

definition unique_sorted :: "string list \<Rightarrow> string list" where
  "unique_sorted xs = sort (remdups xs)"

text \<open>Comparisons with NaT on either side are False.\<close>

definition ge :: "timestamp option \<Rightarrow> timestamp option \<Rightarrow> bool" where
  "ge x y = (case (x, y) of (Some a, Some b) \<Rightarrow> b \<le> a | _ \<Rightarrow> False)"

definition le :: "timestamp option \<Rightarrow> timestamp option \<Rightarrow> bool" where
  "le x y = (case (x, y) of (Some a, Some b) \<Rightarrow> a \<le> b | _ \<Rightarrow> False)"

definition mask_and :: "bool list \<Rightarrow> bool list \<Rightarrow> bool list" where
  "mask_and m1 m2 = map (\<lambda>(a, b). a \<and> b) (zip m1 m2)"

text \<open>Line 79: the date predicate.\<close>

definition date_mask :: "timestamp option list \<Rightarrow> when \<Rightarrow> when \<Rightarrow> bool list" where
  "date_mask tanggal start_date end_date =
     mask_and (map (\<lambda>t. ge t (to_datetime_scalar start_date)) tanggal)
              (map (\<lambda>t. le t (to_datetime_scalar end_date)) tanggal)"

text \<open>Lines 81-82: \<^verbatim>\<open>if selected_kat != "Semua": mask &= (df["Kategori"] == selected_kat)\<close>.\<close>

definition kategori_mask :: "frame \<Rightarrow> string \<Rightarrow> bool list \<Rightarrow> error + bool list" where
  "kategori_mask df selected_kat m =
     (if selected_kat \<noteq> ''Semua'' then
        and_then (getitem df ''Kategori'')
          (\<lambda>s. Inr (mask_and m (map (\<lambda>c. c = Text selected_kat) s)))
      else Inr m)"

text \<open>Lines 84-85: \<^verbatim>\<open>if selected_items: mask &= df["Nama_Item"].isin(selected_items)\<close>.\<close>

definition item_mask :: "frame \<Rightarrow> string list \<Rightarrow> bool list \<Rightarrow> error + bool list" where
  "item_mask df selected_items m =
     (if selected_items \<noteq> [] then
        and_then (getitem df ''Nama_Item'')
          (\<lambda>s. Inr (mask_and m (map (\<lambda>c. c \<in> set (map Text selected_items)) s)))
      else Inr m)"

definition mask :: "frame \<Rightarrow> when \<Rightarrow> when \<Rightarrow> string \<Rightarrow> string list \<Rightarrow> error + bool list" where
  "mask df start_date end_date selected_kat selected_items =
     and_then (datetime_column df ''Tanggal'') (\<lambda>tanggal.
     and_then (kategori_mask df selected_kat (date_mask tanggal start_date end_date)) (\<lambda>m.
     item_mask df selected_items m))"

text \<open>\<^verbatim>\<open>df[mask]\<close>: the rows at which the mask is True, in every column.\<close>

definition keep :: "'a list \<Rightarrow> bool list \<Rightarrow> 'a list" where
  "keep xs m = map fst (filter snd (zip xs m))"

definition select_rows :: "frame \<Rightarrow> bool list \<Rightarrow> frame" where
  "select_rows df m = map (\<lambda>(c, s). (c, keep s m)) df"

definition filtered :: "frame \<Rightarrow> when \<Rightarrow> when \<Rightarrow> string \<Rightarrow> string list \<Rightarrow> error + frame" where
  "filtered df start_date end_date selected_kat selected_items =
     and_then (mask df start_date end_date selected_kat selected_items)
       (\<lambda>m. Inr (select_rows df m))"

subsection \<open>Rows of a frame\<close>

text \<open>
  The table read row by row: row \<open>i\<close> holds the \<open>i\<close>-th cell of every column, under the
  column's label. \<open>nrows\<close> is the length of the index, here of the first column.
\<close>

definition nrows :: "frame \<Rightarrow> nat" where
  "nrows df = (case df of [] \<Rightarrow> 0 | (c, s) # rest \<Rightarrow> length s)"

fun rows_from :: "nat \<Rightarrow> frame \<Rightarrow> (string \<times> cell) list list" where
  "rows_from 0 df = []"
| "rows_from (Suc n) df =
     map (\<lambda>(c, s). (c, hd s)) df # rows_from n (map (\<lambda>(c, s). (c, tl s)) df)"

definition rows :: "frame \<Rightarrow> (string \<times> cell) list list" where
  "rows df = rows_from (nrows df) df"

definition rectangular :: "frame \<Rightarrow> bool" where
  "rectangular df = list_all (\<lambda>(c, s). length s = nrows df) df"

subsection \<open>Aggregation\<close>

text \<open>
  The float64 sum of a group's measures, taken in row order; \<open>None\<close> is NaN. When the
  measures are whole numbers whose absolute values add up to at most \<open>2 ^ 53\<close>, every
  intermediate result is such a whole number, which a float64 holds exactly, and the sum
  is the exact total. Any other sum is rounded, and is the library's.
\<close>

fun amount :: "float64 \<Rightarrow> real" where
  "amount (Finite x) = x"
| "amount v = 0"

definition whole :: "float64 \<Rightarrow> bool" where
  "whole v = (case v of Finite x \<Rightarrow> of_int \<lfloor>x\<rfloor> = x | _ \<Rightarrow> False)"

definition float_sum :: "library \<Rightarrow> float64 list \<Rightarrow> float64 option" where
  "float_sum P vs =
     (if list_all whole vs \<and> (\<Sum>v\<leftarrow>vs. \<bar>amount v\<bar>) \<le> 2 ^ 53
      then Some (Finite (\<Sum>v\<leftarrow>vs. amount v))
      else sum64 P vs)"

text \<open>
  \<^verbatim>\<open>groupby(key)[measure].sum().reset_index()\<close>: the rows are read in order; each adds
  its measure to the group of its key, and a key not seen before opens a new group. The
  result has one row per group, keys in ascending order (pandas sorts group keys), each
  with the sum of the group's measures.
\<close>

fun add_to_group :: "'k \<Rightarrow> 'v \<Rightarrow> ('k \<times> 'v list) list \<Rightarrow> ('k \<times> 'v list) list" where
  "add_to_group k v [] = [(k, [v])]"
| "add_to_group k v ((k', vs) # gs) =
     (if k = k' then (k', vs @ [v]) # gs else (k', vs) # add_to_group k v gs)"

definition groups :: "('k \<times> 'v) list \<Rightarrow> ('k \<times> 'v list) list" where
  "groups kvs = fold (\<lambda>(k, v) gs. add_to_group k v gs) kvs []"

definition group_sum ::
  "library \<Rightarrow> ('k::linorder \<times> float64) list \<Rightarrow> ('k \<times> float64 option) list" where
  "group_sum P kvs = map (\<lambda>(k, vs). (k, float_sum P vs)) (sort_key fst (groups kvs))"

definition bar :: "library \<Rightarrow> frame \<Rightarrow> error + (string \<times> float64 option) list" where
  "bar P df =
     and_then (text_column df ''Kategori'') (\<lambda>ks.
     and_then (float_column df ''Total_Penjualan'') (\<lambda>vs.
     Inr (group_sum P (zip ks vs))))"

text \<open>Grouping by \<^verbatim>\<open>Tanggal\<close> leaves out the rows whose key is NaT.\<close>

definition line :: "library \<Rightarrow> frame \<Rightarrow> error + (timestamp \<times> float64 option) list" where
  "line P df =
     and_then (datetime_column df ''Tanggal'') (\<lambda>ks.
     and_then (float_column df ''Total_Penjualan'') (\<lambda>vs.
     Inr (group_sum P [(t, v). (Some t, v) \<leftarrow> zip ks vs])))"

text \<open>
  \<^verbatim>\<open>sort_values("Total_Penjualan", ascending=False)\<close> with the default
  \<^verbatim>\<open>kind="quicksort"\<close>: pandas computes an indexer, the positions of the rows in their new
  order, and takes the rows in that order. The indexer is the library's answer for the
  sorted column.
\<close>

definition sort_values_desc ::
  "library \<Rightarrow> ('k \<times> float64 option) list \<Rightarrow> ('k \<times> float64 option) list" where
  "sort_values_desc P rs = map (\<lambda>i. rs ! i) (argsort_desc P (map snd rs))"

text \<open>\<^verbatim>\<open>.sort_values(..., ascending=False).head(n)\<close>.\<close>

definition top_n ::
  "library \<Rightarrow> ('k \<times> float64 option) list \<Rightarrow> nat \<Rightarrow> ('k \<times> float64 option) list" where
  "top_n P rs n = take n (sort_values_desc P rs)"

definition pie :: "library \<Rightarrow> frame \<Rightarrow> nat \<Rightarrow> error + (string \<times> float64 option) list" where
  "pie P df n =
     and_then (text_column df ''Nama_Item'') (\<lambda>ks.
     and_then (float_column df ''Total_Penjualan'') (\<lambda>vs.
     Inr (top_n P (group_sum P (zip ks vs)) n)))"

subsection \<open>The display table\<close>

text \<open>
  \<^verbatim>\<open>"{:,.0f}".format(x)\<close>: a finite \<open>x\<close> is rounded to an integer, halves to the even
  neighbour, and written in decimal with a comma before every group of three digits, and
  a minus sign when \<open>x\<close> is negative; the negative zero and the infinities have their own
  spelling.
\<close>

definition round_half_even :: "real \<Rightarrow> int" where
  "round_half_even x =
     (let f = \<lfloor>x\<rfloor>; d = x - of_int f
      in if d < 1 / 2 then f else if 1 / 2 < d then f + 1 else if even f then f else f + 1)"

definition digit_char :: "nat \<Rightarrow> char" where
  "digit_char d = ''0123456789'' ! d"

fun digits :: "nat \<Rightarrow> string" where
  "digits n = (if n < 10 then [digit_char n] else digits (n div 10) @ [digit_char (n mod 10)])"

declare digits.simps [simp del]

fun group3 :: "string \<Rightarrow> string" where
  "group3 (a # b # c # d # rest) = a # b # c # CHR '','' # group3 (d # rest)"
| "group3 s = s"

definition format_finite :: "real \<Rightarrow> string" where
  "format_finite x =
     (if x < 0 then ''-'' else []) @ rev (group3 (rev (digits (nat \<bar>round_half_even x\<bar>))))"

definition format_amount :: "float64 \<Rightarrow> string" where
  "format_amount v =
     (case v of
        Finite x \<Rightarrow> format_finite x
      | NegZero \<Rightarrow> ''-0''
      | PosInf \<Rightarrow> ''inf''
      | NegInf \<Rightarrow> ''-inf'')"

subsection \<open>Objects and references\<close>

text \<open>
  Python variables hold references to DataFrame objects. \<^verbatim>\<open>df[mask]\<close> and
  \<^verbatim>\<open>.copy()\<close> create a new object; \<^verbatim>\<open>display_df[k] = ...\<close> changes the object its
  variable refers to, in place.
\<close>

type_synonym ref = nat

record heap =
  objects :: "ref \<Rightarrow> frame"
  next_ref :: ref

definition empty_heap :: heap where
  "empty_heap = \<lparr>objects = (\<lambda>r. []), next_ref = 0\<rparr>"

definition alloc :: "heap \<Rightarrow> frame \<Rightarrow> heap \<times> ref" where
  "alloc h f = (\<lparr>objects = (objects h)(next_ref h := f), next_ref = Suc (next_ref h)\<rparr>, next_ref h)"

definition boolean_index :: "heap \<Rightarrow> ref \<Rightarrow> bool list \<Rightarrow> heap \<times> ref" where
  "boolean_index h r m = alloc h (select_rows (objects h r) m)"

definition copy :: "heap \<Rightarrow> ref \<Rightarrow> heap \<times> ref" where
  "copy h r = alloc h (objects h r)"

text \<open>Line 142: \<^verbatim>\<open>display_df[k] = display_df[k].map("{:,.0f}".format)\<close>.\<close>

definition format_column :: "heap \<Rightarrow> ref \<Rightarrow> string \<Rightarrow> error + heap" where
  "format_column h r k =
     and_then (float_column (objects h r) k) (\<lambda>vs.
     Inr (h\<lparr>objects := (objects h)
            (r := map_column k (\<lambda>c. case as_float c of Inr v \<Rightarrow> Text (format_amount v) | Inl e \<Rightarrow> c)
                    (objects h r))\<rparr>))"

text \<open>Lines 141-142.\<close>

definition display_df :: "heap \<Rightarrow> ref \<Rightarrow> error + heap \<times> ref" where
  "display_df h flt =
     (let (h1, d) = copy h flt
      in and_then (format_column h1 d ''Total_Penjualan'') (\<lambda>h2. Inr (h2, d)))"

subsection \<open>The script\<close>

record session =
  store :: heap
  df_ref :: ref
  kategori_list :: "string list"
  item_list :: "string list"
  filtered_ref :: ref
  bar_rows :: "(string \<times> float64 option) list"
  line_rows :: "(timestamp \<times> float64 option) list"
  pie_rows :: "(string \<times> float64 option) list"
  display_df_ref :: ref

text \<open>
  \<open>Stopped e\<close>: \<^verbatim>\<open>load_data\<close> raised \<open>e\<close>; lines 55-57 report it with \<^verbatim>\<open>st.error\<close> and
  end the run with \<^verbatim>\<open>st.stop()\<close>. \<open>Crashed e\<close>: a later statement raised \<open>e\<close>, which
  nothing catches. \<open>Rendered s\<close>: the script ran to its end.
\<close>

datatype outcome = Stopped error | Crashed error | Rendered session

text \<open>Lines 63-142, on the loaded table.\<close>

definition script ::
  "library \<Rightarrow> frame \<Rightarrow> int list option \<Rightarrow> string \<Rightarrow> string list \<Rightarrow> nat
     \<Rightarrow> error + session" where
  "script P table picked selected_kat selected_items n =
     (let (h0, df) = alloc empty_heap table in
      and_then (datetime_column (objects h0 df) ''Tanggal'') (\<lambda>tanggal.
      and_then (date_input (min_date tanggal) (max_date tanggal) picked) (\<lambda>date_range.
      let (start_date, end_date) = date_bounds date_range (min_date tanggal) (max_date tanggal) in
      and_then (text_column (objects h0 df) ''Kategori'') (\<lambda>kats.
      and_then (text_column (objects h0 df) ''Nama_Item'') (\<lambda>items.
      and_then (mask (objects h0 df) start_date end_date selected_kat selected_items) (\<lambda>m.
      let (h1, flt) = boolean_index h0 df m in
      and_then (bar P (objects h1 flt)) (\<lambda>b.
      and_then (line P (objects h1 flt)) (\<lambda>l.
      and_then (pie P (objects h1 flt) n) (\<lambda>p.
      and_then (display_df h1 flt) (\<lambda>(h2, d).
      Inr \<lparr>store = h2, df_ref = df,
           kategori_list = ''Semua'' # unique_sorted kats, item_list = unique_sorted items,
           filtered_ref = flt, bar_rows = b, line_rows = l, pie_rows = p,
           display_df_ref = d\<rparr>))))))))))"

text \<open>Lines 53-57 and the rest of the script.\<close>

definition dashboard ::
  "files \<Rightarrow> library \<Rightarrow> int list option \<Rightarrow> string \<Rightarrow> string list \<Rightarrow> nat \<Rightarrow> outcome" where
  "dashboard fs P picked selected_kat selected_items n =
     (case load_data fs P ''dataset_clean.xlsx'' of
        Inl e \<Rightarrow> Stopped e
      | Inr table \<Rightarrow>
          (case script P table picked selected_kat selected_items n of
             Inl e \<Rightarrow> Crashed e
           | Inr s \<Rightarrow> Rendered s))"

subsection \<open>Sample data\<close>

text \<open>
  A library instance for concrete runs. The sample data below ask it two questions: which
  of their texts spell a missing value, and it answers with the default list of pandas,
  which holds none of them; and the number in the text \<^verbatim>\<open>x\<close>, and it answers as
  pandas does: there is none. Its other fields are never consulted on these data. \<open>demo_file\<close> is a sheet with a padded
  lowercase date header and an uppercase item header; \<open>demo_table\<close> is the table
  \<^verbatim>\<open>load_data\<close> makes of it. 2024-01-01 is day 19723 of the epoch.
\<close>

definition demo_library :: library where
  "demo_library =
     \<lparr>na_text = (\<lambda>s. s \<in> set [''#N/A'', ''#N/A N/A'', ''#NA'', ''-1.#IND'', ''-1.#QNAN'',
                              ''-NaN'', ''-nan'', ''1.#IND'', ''1.#QNAN'', ''<NA>'', ''N/A'',
                              ''NA'', ''NULL'', ''NaN'', ''None'', ''n/a'', ''nan'', ''null'']),
      unicode_strip = (\<lambda>s. s), unicode_lower = (\<lambda>s. s),
      parse_number = (\<lambda>s c. None), parse_datetime = (\<lambda>s c. None),
      render = (\<lambda>c. (CHR ''?'', [])), cast_int64 = (\<lambda>r. - (2 ^ 63)),
      sum64 = (\<lambda>vs. None),
      argsort_desc = (\<lambda>vs. [0..<length vs])\<rparr>"

definition demo_file :: frame where
  "demo_file =
     [('' tanggal'', [Timestamp 1704067200000000000, Timestamp 1704067200000000000, Text []]),
      (''Kategori'', [Text ''Coffee'', Text ''Food'', Text []]),
      (''NAMA_ITEM'', [Text ''Latte'', Text ''Croissant'', Text ''Tea'']),
      (''Jumlah'', [Integer 2, Float (Finite (3 / 2)), Text ''x'']),
      (''Total_Penjualan'', [Integer 50000, Integer 25000, Text []])]"

definition demo_files :: files where
  "demo_files path =
     (if path = ''dataset_clean.xlsx'' then Inr demo_file else Inl (FileError path))"

definition demo_table :: frame where
  "demo_table =
     [(''Tanggal'', [Timestamp 1704067200000000000, Timestamp 1704067200000000000, Missing]),
      (''Kategori'', [Text ''Coffee'', Text ''Food'', Text ''Tidak diketahui'']),
      (''Nama_Item'', [Text ''Latte'', Text ''Croissant'', Text ''Tea'']),
      (''Jumlah'', [Integer 2, Integer 1, Integer 0]),
      (''Total_Penjualan'', [Float (Finite 50000), Float (Finite 25000), Float (Finite 0)])]"

text \<open>The two rows of the specification's example.\<close>

definition example_table :: frame where
  "example_table =
     [(''Tanggal'', [Timestamp 1704067200000000000, Timestamp 1704067200000000000]),
      (''Kategori'', [Text ''Coffee'', Text ''Food'']),
      (''Nama_Item'', [Text ''Latte'', Text ''Croissant'']),
      (''Jumlah'', [Integer 2, Integer 1]),
      (''Total_Penjualan'', [Float (Finite 50000), Float (Finite 25000)])]"

text \<open>The example's rows in a sheet whose date header is lowercase.\<close>

definition lowercase_file :: frame where
  "lowercase_file =
     [(''tanggal'', [Timestamp 1704067200000000000, Timestamp 1704067200000000000]),
      (''Kategori'', [Text ''Coffee'', Text ''Food'']),
      (''Nama_Item'', [Text ''Latte'', Text ''Croissant'']),
      (''Jumlah'', [Integer 2, Integer 1]),
      (''Total_Penjualan'', [Integer 50000, Integer 25000])]"



section \<open>Properties\<close>

lemma and_then_Inr [simp]: "and_then (Inr x) f = f x"
  by (simp add: and_then_def)

lemma and_then_Inl [simp]: "and_then (Inl e) f = Inl e"
  by (simp add: and_then_def)

subsection \<open>Facts about the sample table\<close>

lemma demo_getitem:
  "getitem demo_table ''Tanggal'' =
     Inr [Timestamp 1704067200000000000, Timestamp 1704067200000000000, Missing]"
  "getitem demo_table ''Kategori'' = Inr [Text ''Coffee'', Text ''Food'', Text ''Tidak diketahui'']"
  "getitem demo_table ''Nama_Item'' = Inr [Text ''Latte'', Text ''Croissant'', Text ''Tea'']"
  "getitem demo_table ''Total_Penjualan'' = Inr [Float (Finite 50000), Float (Finite 25000), Float (Finite 0)]"
  by (simp_all add: getitem_def series_named_def demo_table_def)

lemma demo_tanggal:
  "datetime_column demo_table ''Tanggal'' =
     Inr [Some 1704067200000000000, Some 1704067200000000000, None]"
  by (simp add: datetime_column_def demo_getitem)

subsection \<open>Failure of the load\<close>

text \<open>
  Claim C6. When \<^verbatim>\<open>read_excel\<close> cannot open or parse the file, \<^verbatim>\<open>load_data\<close> raises
  that very error and returns no table, and the script reports the error and stops: its
  outcome is \<open>Stopped e\<close>, which holds no table, no chart data and no display table.
\<close>

theorem load_failure_stops:
  assumes "fs ''dataset_clean.xlsx'' = Inl e"
  shows "load_data fs P ''dataset_clean.xlsx'' = Inl e
       \<and> dashboard fs P date_range selected_kat selected_items n = Stopped e"
  using assms by (simp add: load_data_def read_excel_def dashboard_def)

theorem load_failure_stops_witness:
  "demo_files ''missing.xlsx'' = Inl (FileError ''missing.xlsx'')
   \<and> load_data (\<lambda>p. demo_files ''missing.xlsx'') demo_library ''dataset_clean.xlsx''
       = Inl (FileError ''missing.xlsx'')
   \<and> dashboard (\<lambda>p. demo_files ''missing.xlsx'') demo_library None ''Semua'' [] 8
       = Stopped (FileError ''missing.xlsx'')"
proof -
  have h: "(\<lambda>p. demo_files ''missing.xlsx'') ''dataset_clean.xlsx''
             = Inl (FileError ''missing.xlsx'')"
    by (simp add: demo_files_def)
  show ?thesis
    using h load_failure_stops [OF h, of demo_library None "''Semua''" "[]" 8] by simp
qed

subsection \<open>The predicates of the mask\<close>

lemma mask_and_Nil [simp]: "mask_and [] m = []" "mask_and m [] = []"
  by (simp_all add: mask_and_def)

lemma mask_and_Cons [simp]: "mask_and (a # m1) (b # m2) = (a \<and> b) # mask_and m1 m2"
  by (simp add: mask_and_def)

lemma mask_and_swap: "mask_and (mask_and m a) b = mask_and (mask_and m b) a"
proof (induction m arbitrary: a b)
  case Nil
  then show ?case by simp
next
  case (Cons x m)
  show ?case
  proof (cases a)
    case Nil
    then show ?thesis by simp
  next
    case ca: (Cons y a')
    show ?thesis
    proof (cases b)
      case Nil
      then show ?thesis by simp
    next
      case (Cons z b')
      with ca Cons.IH [of a' b'] show ?thesis by auto
    qed
  qed
qed

text \<open>
  Claim C3, as the code has it. An empty item selection does not select zero rows: the
  guard \<^verbatim>\<open>if selected_items:\<close> skips the item predicate, so the mask is left as the date
  and category predicates made it, and the filter returns every row that passes those two.
\<close>

theorem empty_item_set_skips:
  "item_mask df [] m = Inr m
   \<and> filtered df start_date end_date selected_kat [] =
       and_then (datetime_column df ''Tanggal'') (\<lambda>tanggal.
       and_then (kategori_mask df selected_kat (date_mask tanggal start_date end_date)) (\<lambda>m.
       Inr (select_rows df m)))"
  by (simp add: item_mask_def filtered_def mask_def and_then_def split: sum.splits)

theorem empty_item_set_skips_witness:
  "item_mask demo_table [] [True, True, False] = Inr [True, True, False]
   \<and> filtered demo_table (Day 19723) (Day 19723) ''Coffee'' [] =
       Inr [(''Tanggal'', [Timestamp 1704067200000000000]),
            (''Kategori'', [Text ''Coffee'']),
            (''Nama_Item'', [Text ''Latte'']),
            (''Jumlah'', [Integer 2]),
            (''Total_Penjualan'', [Float (Finite 50000)])]"
  using empty_item_set_skips [of demo_table "[True, True, False]" "Day 19723" "Day 19723" "''Coffee''"]
  by (simp add: demo_tanggal demo_getitem kategori_mask_def date_mask_def to_datetime_scalar_def
      ns_per_day_def ge_def le_def)
    (simp add: select_rows_def keep_def demo_table_def)

text \<open>
  The claim as stated fails on the sample table: with the date range on 2024-01-01, every
  category and an empty item selection, the two rows of that day are selected.
\<close>

theorem empty_item_set_counterexample:
  "filtered demo_table (Day 19723) (Day 19723) ''Semua'' [] =
     Inr [(''Tanggal'', [Timestamp 1704067200000000000, Timestamp 1704067200000000000]),
          (''Kategori'', [Text ''Coffee'', Text ''Food'']),
          (''Nama_Item'', [Text ''Latte'', Text ''Croissant'']),
          (''Jumlah'', [Integer 2, Integer 1]),
          (''Total_Penjualan'', [Float (Finite 50000), Float (Finite 25000)])]"
  by (simp add: filtered_def mask_def demo_tanggal kategori_mask_def item_mask_def date_mask_def
      to_datetime_scalar_def ns_per_day_def ge_def le_def)
    (simp add: select_rows_def keep_def demo_table_def)

text \<open>
  Claim C7. On a table whose \<^verbatim>\<open>Kategori\<close> and \<^verbatim>\<open>Nama_Item\<close> columns can be read,
  applying the category predicate and then the item predicate to a mask gives the same
  mask as applying them in the opposite order, and the filtered table of the script is the
  one the script would build with lines 81-82 and 84-85 exchanged: each predicate is
  and-ed onto the mask.
\<close>

theorem kategori_item_commute:
  assumes "getitem df ''Kategori'' = Inr ks" and "getitem df ''Nama_Item'' = Inr its"
  shows "and_then (kategori_mask df selected_kat m) (item_mask df selected_items)
           = and_then (item_mask df selected_items m) (kategori_mask df selected_kat)
       \<and> filtered df start_date end_date selected_kat selected_items =
           and_then (datetime_column df ''Tanggal'') (\<lambda>tanggal.
           and_then (and_then (item_mask df selected_items (date_mask tanggal start_date end_date))
                       (kategori_mask df selected_kat)) (\<lambda>m.
           Inr (select_rows df m)))"
proof -
  have swap: "and_then (kategori_mask df selected_kat m') (item_mask df selected_items)
           = and_then (item_mask df selected_items m') (kategori_mask df selected_kat)" for m'
    using assms by (simp add: kategori_mask_def item_mask_def mask_and_swap)
  have "filtered df start_date end_date selected_kat selected_items =
           and_then (datetime_column df ''Tanggal'') (\<lambda>tanggal.
           and_then (and_then (kategori_mask df selected_kat (date_mask tanggal start_date end_date))
                       (item_mask df selected_items)) (\<lambda>m.
           Inr (select_rows df m)))"
    by (simp add: filtered_def mask_def and_then_def split: sum.splits)
  with swap show ?thesis by simp
qed

theorem kategori_item_commute_witness:
  "getitem demo_table ''Kategori'' = Inr [Text ''Coffee'', Text ''Food'', Text ''Tidak diketahui'']
   \<and> getitem demo_table ''Nama_Item'' = Inr [Text ''Latte'', Text ''Croissant'', Text ''Tea'']
   \<and> and_then (kategori_mask demo_table ''Coffee'' [True, True, True])
         (item_mask demo_table [''Latte'', ''Tea'']) = Inr [True, False, False]
   \<and> and_then (item_mask demo_table [''Latte'', ''Tea''] [True, True, True])
         (kategori_mask demo_table ''Coffee'') = Inr [True, False, False]"
  using kategori_item_commute [OF demo_getitem(2) demo_getitem(3), of "''Coffee''" "[True, True, True]"
      "[''Latte'', ''Tea'']" "Day 19723" "Day 19723"]
  by (simp add: demo_getitem kategori_mask_def item_mask_def)

subsection \<open>Selecting rows\<close>

lemma keep_Nil [simp]: "keep [] m = []" "keep xs [] = []"
  by (simp_all add: keep_def)

lemma keep_Cons [simp]: "keep (x # xs) (b # m) = (if b then x # keep xs m else keep xs m)"
  by (simp add: keep_def)

lemma length_keep: "length xs = length m \<Longrightarrow> length (keep xs m) = length (filter id m)"
proof (induction m arbitrary: xs)
  case Nil
  then show ?case by simp
next
  case (Cons b m)
  then obtain x xs' where "xs = x # xs'" by (cases xs) auto
  with Cons show ?case by simp
qed

lemma keep_tl:
  "s \<noteq> [] \<Longrightarrow> tl (keep s (True # m)) = keep (tl s) m"
  "s \<noteq> [] \<Longrightarrow> hd (keep s (True # m)) = hd s"
  "s \<noteq> [] \<Longrightarrow> keep s (False # m) = keep (tl s) m"
  by (cases s; simp)+

lemma rows_from_select:
  assumes "\<forall>(c, s) \<in> set df. length s = length m"
  shows "rows_from (length (filter id m)) (select_rows df m) = keep (rows_from (length m) df) m"
  using assms
proof (induction m arbitrary: df)
  case Nil
  then show ?case by simp
next
  case (Cons b m)
  let ?tails = "map (\<lambda>(c, s). (c, tl s)) df"
  have len: "\<forall>(c, s) \<in> set ?tails. length s = length m"
    using Cons.prems by auto
  have ne: "\<forall>(c, s) \<in> set df. s \<noteq> []"
    using Cons.prems by auto
  have tl_sel: "map (\<lambda>(c, s). (c, tl s)) (select_rows df (True # m)) = select_rows ?tails m"
    using ne by (induction df) (auto simp: select_rows_def keep_tl)
  have hd_sel: "map (\<lambda>(c, s). (c, hd s)) (select_rows df (True # m)) = map (\<lambda>(c, s). (c, hd s)) df"
    using ne by (induction df) (auto simp: select_rows_def keep_tl)
  have drop_sel: "select_rows df (False # m) = select_rows ?tails m"
    using ne by (induction df) (auto simp: select_rows_def keep_tl)
  show ?case
  proof (cases b)
    case True
    with Cons.IH [OF len] tl_sel hd_sel show ?thesis by simp
  next
    case False
    with Cons.IH [OF len] drop_sel show ?thesis by simp
  qed
qed

lemma rows_select:
  assumes "rectangular df" and "length m = nrows df"
  shows "rows (select_rows df m) = keep (rows df) m"
proof (cases df)
  case Nil
  then show ?thesis by (simp add: rows_def select_rows_def nrows_def)
next
  case (Cons p rest)
  obtain c s where p: "p = (c, s)" by (cases p)
  have all: "\<forall>(c, s) \<in> set df. length s = length m"
    using assms by (auto simp: rectangular_def list_all_iff)
  have "nrows (select_rows df m) = length (keep s m)"
    using Cons p by (simp add: nrows_def select_rows_def)
  also have "\<dots> = length (filter id m)"
    using assms(2) Cons p by (simp add: length_keep nrows_def)
  finally show ?thesis
    using rows_from_select [OF all] assms(2) by (simp add: rows_def)
qed

lemma getitem_mem: "getitem df k = Inr s \<Longrightarrow> (k, s) \<in> set df"
proof -
  assume a: "getitem df k = Inr s"
  then have "series_named df k = [s]"
    by (auto simp: getitem_def split: list.splits)
  then have "s \<in> set (map snd (filter (\<lambda>(c, s). c = k) df))"
    by (simp add: series_named_def)
  then show ?thesis by auto
qed

lemma getitem_length: "rectangular df \<Longrightarrow> getitem df k = Inr s \<Longrightarrow> length s = nrows df"
  using getitem_mem [of df k s] by (auto simp: rectangular_def list_all_iff)

lemma traverse_length: "traverse f xs = Inr ys \<Longrightarrow> length ys = length xs"
  by (induction xs arbitrary: ys) (auto split: sum.splits)

lemma datetime_column_length:
  "rectangular df \<Longrightarrow> datetime_column df k = Inr ts \<Longrightarrow> length ts = nrows df"
proof -
  assume r: "rectangular df" and d: "datetime_column df k = Inr ts"
  from d obtain s where g: "getitem df k = Inr s" and t: "traverse as_datetime s = Inr ts"
    by (auto simp: datetime_column_def and_then_def split: sum.splits)
  from t have "length ts = length s" by (rule traverse_length)
  with getitem_length [OF r g] show ?thesis by simp
qed

lemma mask_and_length: "length (mask_and a b) = min (length a) (length b)"
  by (simp add: mask_and_def)

lemma mask_and_nth:
  "i < length a \<Longrightarrow> i < length b \<Longrightarrow> mask_and a b ! i = (a ! i \<and> b ! i)"
  by (simp add: mask_and_def)

lemma keep_nth:
  "length xs = length m \<Longrightarrow> keep xs m = map (\<lambda>i. xs ! i) (filter (\<lambda>i. m ! i) [0..<length m])"
proof (induction m arbitrary: xs)
  case Nil
  then show ?case by simp
next
  case (Cons b m)
  then obtain x xs' where xs: "xs = x # xs'" by (cases xs) auto
  have up: "[0..<Suc (length m)] = 0 # map Suc [0..<length m]"
    by (simp add: upt_conv_Cons map_Suc_upt del: upt_Suc)
  from Cons.prems xs have "length xs' = length m" by simp
  from Cons.IH [OF this] show ?case
    by (simp add: xs up filter_map o_def del: upt_Suc)
qed

lemma select_rows_nth:
  assumes "rectangular df" and "length m = nrows df"
  shows "select_rows df m =
           map (\<lambda>(c, s). (c, map (\<lambda>i. s ! i) (filter (\<lambda>i. m ! i) [0..<nrows df]))) df"
proof -
  have "keep s m = map (\<lambda>i. s ! i) (filter (\<lambda>i. m ! i) [0..<nrows df])" if "(c, s) \<in> set df" for c s
  proof -
    from that assms have "length s = length m" by (auto simp: rectangular_def list_all_iff)
    from keep_nth [OF this] assms(2) show ?thesis by simp
  qed
  then show ?thesis by (auto simp: select_rows_def)
qed

lemma length_rows_from [simp]: "length (rows_from n df) = n"
  by (induction n arbitrary: df) simp_all

lemma rows_from_nth:
  "\<forall>(c, s) \<in> set df. length s = n \<Longrightarrow> i < n \<Longrightarrow> rows_from n df ! i = map (\<lambda>(c, s). (c, s ! i)) df"
proof (induction n arbitrary: df i)
  case 0
  then show ?case by simp
next
  case (Suc n)
  let ?tails = "map (\<lambda>(c, s). (c, tl s)) df"
  have len: "\<forall>(c, s) \<in> set ?tails. length s = n"
    using Suc.prems(1) by auto
  show ?case
  proof (cases i)
    case 0
    have "hd s = s ! 0" if "(c, s) \<in> set df" for c s
      using that Suc.prems(1) by (cases s) auto
    with 0 show ?thesis by auto
  next
    case (Suc j)
    with Suc.prems(2) have j: "j < n" by simp
    have "tl s ! j = s ! Suc j" if "(c, s) \<in> set df" for c s
      using that Suc.prems(1) j by (cases s) auto
    with Suc Suc.IH [OF len j] show ?thesis by (auto simp: o_def)
  qed
qed

lemma rows_nth:
  assumes "rectangular df" and "i < nrows df"
  shows "rows df ! i = map (\<lambda>(c, s). (c, s ! i)) df"
proof -
  have "\<forall>(c, s) \<in> set df. length s = nrows df"
    using assms(1) by (auto simp: rectangular_def list_all_iff)
  from rows_from_nth [OF this assms(2)] show ?thesis by (simp add: rows_def)
qed

lemma length_rows [simp]: "length (rows df) = nrows df"
  by (simp add: rows_def)

lemma rows_select_nth:
  assumes "rectangular df" and "length m = nrows df"
  shows "rows (select_rows df m) = map (\<lambda>i. rows df ! i) (filter (\<lambda>i. m ! i) [0..<nrows df])"
proof -
  have "length (rows df) = length m" using assms(2) by simp
  from keep_nth [OF this] rows_select [OF assms] assms(2) show ?thesis by simp
qed

subsection \<open>The date predicate\<close>





lemma mask_and_map: "mask_and (map f xs) (map g xs) = map (\<lambda>x. f x \<and> g x) xs"
  by (induction xs) simp_all

lemma date_mask_map:
  "date_mask ts s e =
     map (\<lambda>d. ge d (to_datetime_scalar s) \<and> le d (to_datetime_scalar e)) ts"
  by (simp add: date_mask_def mask_and_map)



lemma date_mask_nth:
  assumes "i < length ts"
  shows "date_mask ts s e ! i \<longleftrightarrow>
         (\<exists>t lo hi. ts ! i = Some t \<and> to_datetime_scalar s = Some lo
            \<and> to_datetime_scalar e = Some hi \<and> lo \<le> t \<and> t \<le> hi)"
  using assms by (auto simp: date_mask_map ge_def le_def split: option.splits)









lemma demo_rectangular: "rectangular demo_table"
  by (simp add: rectangular_def demo_table_def nrows_def)

lemma demo_nrows: "nrows demo_table = 3"
  by (simp add: demo_table_def nrows_def)

lemma upt_3: "[0..<3] = [0, 1, 2]"
  by (simp add: upt_rec)





subsection \<open>The filtered table\<close>

text \<open>
  Claim C9. On a rectangular table whose \<^verbatim>\<open>Tanggal\<close>, \<^verbatim>\<open>Kategori\<close> and
  \<^verbatim>\<open>Nama_Item\<close> columns can be read, the filter succeeds for every choice of the
  predicates. Its mask is True at row \<open>i\<close> exactly when the row's date is not null and
  lies between the bounds, its category is the chosen one (if one is chosen) and its item
  is among the chosen ones (if any is chosen). The filtered table has the columns of the
  input, each holding the cells of the rows \<open>i\<close> at which the mask is True, in ascending
  order of \<open>i\<close>; read row by row, it is those rows of the input, where row \<open>i\<close> of a table
  holds cell \<open>i\<close> of every column. \<^verbatim>\<open>df[mask]\<close> stores the result in a new object and
  changes no object that exists, so the input table is as before.
\<close>

theorem filtered_rows:
  assumes "rectangular df"
    and "datetime_column df ''Tanggal'' = Inr ts"
    and "getitem df ''Kategori'' = Inr ks"
    and "getitem df ''Nama_Item'' = Inr its"
    and "r < next_ref h" and "objects h r = df"
  shows "\<exists>m flt. mask df start_date end_date selected_kat selected_items = Inr m
         \<and> length m = nrows df
         \<and> (\<forall>i<nrows df. m ! i \<longleftrightarrow>
               (\<exists>t lo hi. ts ! i = Some t \<and> to_datetime_scalar start_date = Some lo
                  \<and> to_datetime_scalar end_date = Some hi \<and> lo \<le> t \<and> t \<le> hi)
               \<and> (selected_kat = ''Semua'' \<or> ks ! i = Text selected_kat)
               \<and> (selected_items = [] \<or> its ! i \<in> set (map Text selected_items)))
         \<and> filtered df start_date end_date selected_kat selected_items = Inr flt
         \<and> flt = map (\<lambda>(c, s). (c, map (\<lambda>i. s ! i) (filter (\<lambda>i. m ! i) [0..<nrows df]))) df
         \<and> columns flt = columns df
         \<and> rows flt = map (\<lambda>i. rows df ! i) (filter (\<lambda>i. m ! i) [0..<nrows df])
         \<and> length (rows df) = nrows df
         \<and> (\<forall>i<nrows df. rows df ! i = map (\<lambda>(c, s). (c, s ! i)) df)
         \<and> (case boolean_index h r m of (h', r') \<Rightarrow>
               r' = next_ref h \<and> r' \<noteq> r \<and> objects h' r' = flt
               \<and> (\<forall>q. q \<noteq> r' \<longrightarrow> objects h' q = objects h q) \<and> objects h' r = df)"
proof -
  let ?n = "nrows df"
  let ?d = "date_mask ts start_date end_date"
  let ?k = "if selected_kat \<noteq> ''Semua'' then mask_and ?d (map (\<lambda>c. c = Text selected_kat) ks) else ?d"
  let ?m = "if selected_items \<noteq> [] then mask_and ?k (map (\<lambda>c. c \<in> set (map Text selected_items)) its) else ?k"
  let ?flt = "map (\<lambda>(c, s). (c, map (\<lambda>i. s ! i) (filter (\<lambda>i. ?m ! i) [0..<nrows df]))) df"
  have lt: "length ts = ?n" using assms(1,2) by (rule datetime_column_length)
  have lk: "length ks = ?n" using assms(1,3) by (rule getitem_length)
  have li: "length its = ?n" using assms(1,4) by (rule getitem_length)
  have ld: "length ?d = ?n" using lt by (simp add: date_mask_map)
  have lkm: "length ?k = ?n" using ld lk by (simp add: mask_and_length)
  have lm: "length ?m = ?n" using lkm li by (simp add: mask_and_length)
  have m: "mask df start_date end_date selected_kat selected_items = Inr ?m"
    using assms(2-4) by (simp add: mask_def kategori_mask_def item_mask_def)
  have kn: "?k ! i \<longleftrightarrow> ?d ! i \<and> (selected_kat = ''Semua'' \<or> ks ! i = Text selected_kat)"
    if "i < ?n" for i
    using that ld lk by (simp add: mask_and_nth)
  have mn: "?m ! i \<longleftrightarrow> ?d ! i \<and> (selected_kat = ''Semua'' \<or> ks ! i = Text selected_kat)
       \<and> (selected_items = [] \<or> its ! i \<in> set (map Text selected_items))" if "i < ?n" for i
  proof (cases "selected_items = []")
    case True
    with kn [OF that] show ?thesis by simp
  next
    case False
    then have "?m ! i \<longleftrightarrow> ?k ! i \<and> its ! i \<in> set (map Text selected_items)"
      using that lkm li by (simp add: mask_and_nth)
    with kn [OF that] False show ?thesis by simp
  qed
  have sel: "select_rows df ?m = ?flt"
    using assms(1) lm by (rule select_rows_nth)
  have f: "filtered df start_date end_date selected_kat selected_items = Inr ?flt"
    using m sel by (simp add: filtered_def)
  have c: "columns ?flt = columns df"
    by (simp add: columns_def comp_def case_prod_beta)
  have r: "rows ?flt = map (\<lambda>i. rows df ! i) (filter (\<lambda>i. ?m ! i) [0..<nrows df])"
    using rows_select_nth [OF assms(1) lm] sel by simp
  have h: "case boolean_index h r ?m of (h', r') \<Rightarrow>
               r' = next_ref h \<and> r' \<noteq> r \<and> objects h' r' = ?flt
               \<and> (\<forall>q. q \<noteq> r' \<longrightarrow> objects h' q = objects h q) \<and> objects h' r = df"
    using assms(5,6) sel by (simp add: boolean_index_def alloc_def)
  show ?thesis
  proof (intro exI conjI allI impI)
    show "mask df start_date end_date selected_kat selected_items = Inr ?m" by (rule m)
    show "length ?m = nrows df" by (rule lm)
    show "?m ! i \<longleftrightarrow>
               (\<exists>t lo hi. ts ! i = Some t \<and> to_datetime_scalar start_date = Some lo
                  \<and> to_datetime_scalar end_date = Some hi \<and> lo \<le> t \<and> t \<le> hi)
               \<and> (selected_kat = ''Semua'' \<or> ks ! i = Text selected_kat)
               \<and> (selected_items = [] \<or> its ! i \<in> set (map Text selected_items))"
      if "i < ?n" for i
      using mn [OF that] date_mask_nth [of i ts start_date end_date] that lt by simp
    show "filtered df start_date end_date selected_kat selected_items = Inr ?flt" by (rule f)
    show "?flt = ?flt" by (rule refl)
    show "columns ?flt = columns df" by (rule c)
    show "rows ?flt = map (\<lambda>i. rows df ! i) (filter (\<lambda>i. ?m ! i) [0..<nrows df])" by (rule r)
    show "length (rows df) = nrows df" by (rule length_rows)
    show "rows df ! i = map (\<lambda>(c, s). (c, s ! i)) df" if "i < ?n" for i
      using assms(1) that by (rule rows_nth)
    show "case boolean_index h r ?m of (h', r') \<Rightarrow>
               r' = next_ref h \<and> r' \<noteq> r \<and> objects h' r' = ?flt
               \<and> (\<forall>q. q \<noteq> r' \<longrightarrow> objects h' q = objects h q) \<and> objects h' r = df"
      by (rule h)
  qed
qed

lemma demo_rows:
  "rows demo_table =
     [[(''Tanggal'', Timestamp 1704067200000000000), (''Kategori'', Text ''Coffee''),
       (''Nama_Item'', Text ''Latte''), (''Jumlah'', Integer 2),
       (''Total_Penjualan'', Float (Finite 50000))],
      [(''Tanggal'', Timestamp 1704067200000000000), (''Kategori'', Text ''Food''),
       (''Nama_Item'', Text ''Croissant''), (''Jumlah'', Integer 1),
       (''Total_Penjualan'', Float (Finite 25000))],
      [(''Tanggal'', Missing), (''Kategori'', Text ''Tidak diketahui''),
       (''Nama_Item'', Text ''Tea''), (''Jumlah'', Integer 0),
       (''Total_Penjualan'', Float (Finite 0))]]"
  by (simp add: rows_def nrows_def demo_table_def eval_nat_numeral)

theorem filtered_rows_witness:
  "rectangular demo_table
   \<and> datetime_column demo_table ''Tanggal'' =
       Inr [Some 1704067200000000000, Some 1704067200000000000, None]
   \<and> getitem demo_table ''Kategori'' = Inr [Text ''Coffee'', Text ''Food'', Text ''Tidak diketahui'']
   \<and> getitem demo_table ''Nama_Item'' = Inr [Text ''Latte'', Text ''Croissant'', Text ''Tea'']
   \<and> 0 < next_ref (fst (alloc empty_heap demo_table))
   \<and> objects (fst (alloc empty_heap demo_table)) 0 = demo_table
   \<and> mask demo_table (Day 19723) (Day 19723) ''Food'' [''Croissant'', ''Tea'']
       = Inr [False, True, False]
   \<and> filtered demo_table (Day 19723) (Day 19723) ''Food'' [''Croissant'', ''Tea''] =
       Inr [(''Tanggal'', [Timestamp 1704067200000000000]),
            (''Kategori'', [Text ''Food'']),
            (''Nama_Item'', [Text ''Croissant'']),
            (''Jumlah'', [Integer 1]),
            (''Total_Penjualan'', [Float (Finite 25000)])]
   \<and> rows [(''Tanggal'', [Timestamp 1704067200000000000]),
            (''Kategori'', [Text ''Food'']),
            (''Nama_Item'', [Text ''Croissant'']),
            (''Jumlah'', [Integer 1]),
            (''Total_Penjualan'', [Float (Finite 25000)])] =
       [[(''Tanggal'', Timestamp 1704067200000000000), (''Kategori'', Text ''Food''),
         (''Nama_Item'', Text ''Croissant''), (''Jumlah'', Integer 1),
         (''Total_Penjualan'', Float (Finite 25000))]]
   \<and> objects (fst (boolean_index (fst (alloc empty_heap demo_table)) 0 [False, True, False])) 0
       = demo_table
   \<and> objects (fst (boolean_index (fst (alloc empty_heap demo_table)) 0 [False, True, False])) 1
       = [(''Tanggal'', [Timestamp 1704067200000000000]),
          (''Kategori'', [Text ''Food'']),
          (''Nama_Item'', [Text ''Croissant'']),
          (''Jumlah'', [Integer 1]),
          (''Total_Penjualan'', [Float (Finite 25000)])]"
proof -
  let ?h = "fst (alloc empty_heap demo_table)"
  let ?food = "[(''Tanggal'', [Timestamp 1704067200000000000]),
          (''Kategori'', [Text ''Food'']),
          (''Nama_Item'', [Text ''Croissant'']),
          (''Jumlah'', [Integer 1]),
          (''Total_Penjualan'', [Float (Finite 25000)])]"
  have h1: "0 < next_ref ?h" and h2: "objects ?h 0 = demo_table" and h3: "next_ref ?h = 1"
    by (simp_all add: alloc_def empty_heap_def)
  have m: "mask demo_table (Day 19723) (Day 19723) ''Food'' [''Croissant'', ''Tea'']
       = Inr [False, True, False]"
    by (simp add: mask_def demo_tanggal demo_getitem kategori_mask_def item_mask_def date_mask_def
        to_datetime_scalar_def ns_per_day_def ge_def le_def)
  from filtered_rows [OF demo_rectangular demo_tanggal demo_getitem(2) demo_getitem(3) h1 h2,
      of "Day 19723" "Day 19723" "''Food''" "[''Croissant'', ''Tea'']"]
  obtain m' flt where a: "mask demo_table (Day 19723) (Day 19723) ''Food'' [''Croissant'', ''Tea'']
         = Inr m'"
    and f: "filtered demo_table (Day 19723) (Day 19723) ''Food'' [''Croissant'', ''Tea''] = Inr flt"
    and e: "flt = map (\<lambda>(c, s). (c, map (\<lambda>i. s ! i) (filter (\<lambda>i. m' ! i) [0..<nrows demo_table])))
                   demo_table"
    and b: "rows flt = map (\<lambda>i. rows demo_table ! i) (filter (\<lambda>i. m' ! i) [0..<nrows demo_table])"
    and c: "case boolean_index ?h 0 m' of (h', r') \<Rightarrow>
               r' = next_ref ?h \<and> r' \<noteq> 0 \<and> objects h' r' = flt
               \<and> (\<forall>q. q \<noteq> r' \<longrightarrow> objects h' q = objects ?h q) \<and> objects h' 0 = demo_table"
    by (elim exE conjE)
  from a m have eq: "m' = [False, True, False]" by simp
  from e eq have flt: "flt = ?food"
    by (simp add: demo_nrows upt_3) (simp add: demo_table_def)
  from b eq flt have r: "rows ?food =
       [[(''Tanggal'', Timestamp 1704067200000000000), (''Kategori'', Text ''Food''),
         (''Nama_Item'', Text ''Croissant''), (''Jumlah'', Integer 1),
         (''Total_Penjualan'', Float (Finite 25000))]]"
    by (simp add: demo_nrows upt_3 demo_rows)
  from c eq have o: "objects (fst (boolean_index ?h 0 [False, True, False])) 0 = demo_table"
    by (simp add: case_prod_beta)
  from c eq flt h3 have n: "objects (fst (boolean_index ?h 0 [False, True, False])) 1 = ?food"
    by (auto simp: case_prod_beta)
  from f flt have f': "filtered demo_table (Day 19723) (Day 19723) ''Food'' [''Croissant'', ''Tea'']
       = Inr ?food"
    by simp
  from demo_rectangular demo_tanggal demo_getitem(2) demo_getitem(3) h1 h2 m f' r o n
  show ?thesis by simp
qed

subsection \<open>The display copy\<close>

lemma series_named_map_column:
  "series_named (map_column k f df) k' =
     (if k' = k then map (map f) (series_named df k') else series_named df k')"
  by (induction df) (auto simp: series_named_def map_column_def)

lemma getitem_map_column_same:
  "getitem df k = Inr s \<Longrightarrow> getitem (map_column k f df) k = Inr (map f s)"
  by (auto simp: getitem_def series_named_map_column split: list.splits)

lemma getitem_map_column_other:
  "k' \<noteq> k \<Longrightarrow> getitem (map_column k f df) k' = getitem df k'"
  by (simp add: getitem_def series_named_map_column)

lemma traverse_as_float_format:
  "traverse as_float s = Inr vs \<Longrightarrow>
     map (\<lambda>c. case as_float c of Inr v \<Rightarrow> Text (format_amount v) | Inl e \<Rightarrow> c) s
       = map (\<lambda>v. Text (format_amount v)) vs"
  by (induction s arbitrary: vs) (auto split: sum.splits)

text \<open>
  Claim C10. When the filtered table is an existing object with a numeric
  \<^verbatim>\<open>Total_Penjualan\<close> column, lines 141-142 succeed and work on a new object: every
  object that existed before, the filtered table and the base table among them, is
  unchanged, and the filtered table's amount column is still numeric with the same values.
  In the copy the amount column holds the formatted strings, and every other column is as
  in the filtered table.
\<close>

theorem display_copy:
  assumes "flt < next_ref h"
    and "float_column (objects h flt) ''Total_Penjualan'' = Inr vs"
  shows "\<exists>h2 d. display_df h flt = Inr (h2, d)
         \<and> d = next_ref h \<and> d \<noteq> flt
         \<and> (\<forall>q<next_ref h. objects h2 q = objects h q)
         \<and> float_column (objects h2 flt) ''Total_Penjualan'' = Inr vs
         \<and> getitem (objects h2 d) ''Total_Penjualan'' = Inr (map (\<lambda>v. Text (format_amount v)) vs)
         \<and> (\<forall>k. k \<noteq> ''Total_Penjualan'' \<longrightarrow>
               series_named (objects h2 d) k = series_named (objects h flt) k)"
proof -
  let ?k = "''Total_Penjualan''"
  let ?f = "\<lambda>c. case as_float c of Inr v \<Rightarrow> Text (format_amount v) | Inl e \<Rightarrow> c"
  let ?d = "next_ref h"
  let ?h1 = "\<lparr>objects = (objects h)(next_ref h := objects h flt), next_ref = Suc (next_ref h)\<rparr>"
  let ?h2 = "?h1\<lparr>objects := (objects ?h1)(?d := map_column ?k ?f (objects ?h1 ?d))\<rparr>"
  from assms(2) obtain s where g: "getitem (objects h flt) ?k = Inr s"
    and t: "traverse as_float s = Inr vs"
    by (auto simp: float_column_def and_then_def split: sum.splits)
  have cp: "copy h flt = (?h1, ?d)" and o1: "objects ?h1 ?d = objects h flt"
    and o2: "\<And>q. q \<noteq> ?d \<Longrightarrow> objects ?h1 q = objects h q"
    by (simp_all add: copy_def alloc_def)
  have fc: "float_column (objects ?h1 ?d) ?k = Inr vs"
    using assms(2) o1 by simp
  have disp: "display_df h flt = Inr (?h2, ?d)"
    using fc by (simp add: display_df_def cp format_column_def)
  have g2: "getitem (objects ?h2 ?d) ?k = Inr (map (\<lambda>v. Text (format_amount v)) vs)"
    using getitem_map_column_same [OF g, of ?f] traverse_as_float_format [OF t] o1 by simp
  have same: "objects ?h2 q = objects h q" if "q < ?d" for q
    using that o2 [of q] by simp
  have fl: "float_column (objects ?h2 flt) ?k = Inr vs"
    using same [OF assms(1)] assms(2) by simp
  have oth: "series_named (objects ?h2 ?d) k = series_named (objects h flt) k" if "k \<noteq> ?k" for k
    using that o1 by (simp add: series_named_map_column)
  show ?thesis
  proof (intro exI conjI allI impI)
    show "display_df h flt = Inr (?h2, ?d)" by (rule disp)
    show "?d = next_ref h" by simp
    show "?d \<noteq> flt" using assms(1) by simp
    show "objects ?h2 q = objects h q" if "q < next_ref h" for q using that by (rule same)
    show "float_column (objects ?h2 flt) ?k = Inr vs" by (rule fl)
    show "getitem (objects ?h2 ?d) ?k = Inr (map (\<lambda>v. Text (format_amount v)) vs)" by (rule g2)
    show "series_named (objects ?h2 ?d) k = series_named (objects h flt) k" if "k \<noteq> ?k" for k
      using that by (rule oth)
  qed
qed

lemma format_examples:
  "format_amount (Finite 50000) = ''50,000''" "format_amount (Finite 25000) = ''25,000''"
  "format_amount (Finite 0) = ''0''" "format_amount (Finite (12345675 / 10)) = ''1,234,568''"
  "format_amount (Finite (- 5 / 2)) = ''-2''" "format_amount NegInf = ''-inf''"
  by (simp_all add: format_amount_def format_finite_def round_half_even_def digits.simps
      digit_char_def)


lemma demo_total:
  "float_column demo_table ''Total_Penjualan'' = Inr [Finite 50000, Finite 25000, Finite 0]"
  by (simp add: float_column_def demo_getitem)

theorem display_copy_witness:
  "0 < next_ref (fst (alloc empty_heap demo_table))
   \<and> float_column (objects (fst (alloc empty_heap demo_table)) 0) ''Total_Penjualan''
       = Inr [Finite 50000, Finite 25000, Finite 0]
   \<and> snd (projr (display_df (fst (alloc empty_heap demo_table)) 0)) = 1
   \<and> objects (fst (projr (display_df (fst (alloc empty_heap demo_table)) 0))) 0 = demo_table
   \<and> getitem (objects (fst (projr (display_df (fst (alloc empty_heap demo_table)) 0))) 1)
         ''Total_Penjualan'' = Inr [Text ''50,000'', Text ''25,000'', Text ''0'']"
proof -
  let ?h = "fst (alloc empty_heap demo_table)"
  have h1: "0 < next_ref ?h" and h2: "objects ?h 0 = demo_table" and h3: "next_ref ?h = 1"
    by (simp_all add: alloc_def empty_heap_def)
  have fc: "float_column (objects ?h 0) ''Total_Penjualan'' = Inr [Finite 50000, Finite 25000, Finite 0]"
    using demo_total h2 by simp
  from display_copy [OF h1 fc] obtain h2 d where a: "display_df ?h 0 = Inr (h2, d)"
    and b: "d = next_ref ?h"
    and c: "\<forall>q<next_ref ?h. objects h2 q = objects ?h q"
    and e: "getitem (objects h2 d) ''Total_Penjualan''
              = Inr (map (\<lambda>v. Text (format_amount v)) [Finite 50000, Finite 25000, Finite 0])"
    by (elim exE conjE)
  from c h1 h2 have o: "objects h2 0 = demo_table" by simp
  from e b h3 have g: "getitem (objects h2 1) ''Total_Penjualan''
      = Inr [Text ''50,000'', Text ''25,000'', Text ''0'']"
    by (simp add: format_examples)
  from a b h3 o g h1 fc show ?thesis by simp
qed
subsection \<open>Sums per group\<close>










subsection \<open>The loaded table\<close>

lemma and_then_Inr_iff: "and_then r f = Inr y \<longleftrightarrow> (\<exists>x. r = Inr x \<and> f x = Inr y)"
  by (cases r) simp_all

lemma assign_series_Inr:
  "assign_series k f df = Inr df' \<Longrightarrow>
     \<exists>s s'. getitem df k = Inr s \<and> f s = Inr s' \<and> df' = set_column k s' df"
  by (auto simp: assign_series_def and_then_Inr_iff)

lemma assign_columns_Inr:
  "assign_columns k f df = Inr df' \<Longrightarrow> df' = map_column k f df \<and> k \<in> set (columns df)"
  by (simp add: assign_columns_def split: if_splits)

lemma series_named_set_column:
  "series_named (set_column k s' df) k' =
     (if k' = k then map (\<lambda>s. s') (series_named df k') else series_named df k')"
  by (induction df) (auto simp: series_named_def set_column_def)

lemma getitem_set_column_same:
  "getitem df k = Inr s \<Longrightarrow> getitem (set_column k s' df) k = Inr s'"
  by (auto simp: getitem_def series_named_set_column split: list.splits)

lemma getitem_set_column_other:
  "k' \<noteq> k \<Longrightarrow> getitem (set_column k s' df) k' = getitem df k'"
  by (simp add: getitem_def series_named_set_column)

lemma columns_map_column [simp]: "columns (map_column k f df) = columns df"
  by (induction df) (auto simp: columns_def map_column_def)

lemma columns_set_column [simp]: "columns (set_column k s' df) = columns df"
  by (induction df) (auto simp: columns_def set_column_def)

lemma lengths_map_column [simp]:
  "map (\<lambda>(c, s). length s) (map_column k f df) = map (\<lambda>(c, s). length s) df"
  by (induction df) (auto simp: map_column_def)

lemma getitem_unique: "getitem df k = Inr s \<Longrightarrow> (k, s0) \<in> set df \<Longrightarrow> s0 = s"
proof -
  assume a: "getitem df k = Inr s" and m: "(k, s0) \<in> set df"
  from a have "series_named df k = [s]"
    by (auto simp: getitem_def split: list.splits)
  moreover from m have "s0 \<in> set (series_named df k)"
    by (force simp: series_named_def)
  ultimately show ?thesis by simp
qed

lemma lengths_set_column:
  assumes "getitem df k = Inr s" and "length s' = length s"
  shows "map (\<lambda>(c, s). length s) (set_column k s' df) = map (\<lambda>(c, s). length s) df"
proof -
  have "(case (if c = k then (c, s') else (c, s0)) of (c, s) \<Rightarrow> length s) = length s0"
    if "(c, s0) \<in> set df" for c s0
    using that getitem_unique [OF assms(1), of s0] assms(2) by auto
  then show ?thesis by (auto simp: set_column_def)
qed

lemma length_to_datetime [simp]: "length (to_datetime P s) = length s"
  by (simp add: to_datetime_def)

lemma length_to_numeric [simp]: "length (to_numeric P s) = length s"
  by (simp add: to_numeric_def)

lemma length_total_series [simp]: "length (total_series P s) = length s"
  by (simp add: total_series_def)

lemma jumlah_series_Inr:
  "jumlah_series P s = Inr s' \<Longrightarrow>
     \<exists>qs. traverse (astype_int P) (map (fillna (Finite 0)) (to_numeric P s)) = Inr qs
          \<and> s' = map Integer qs \<and> length qs = length s"
proof -
  assume "jumlah_series P s = Inr s'"
  then obtain qs where
    t: "traverse (astype_int P) (map (fillna (Finite 0)) (to_numeric P s)) = Inr qs"
    and s': "s' = map Integer qs"
    by (auto simp: jumlah_series_def and_then_Inr_iff)
  from traverse_length [OF t] have "length qs = length s" by simp
  with t s' show ?thesis by blast
qed


lemma coerce_Inr:
  assumes "coerce P df2 = Inr df"
  shows "\<exists>tg jm tp qs.
           getitem df2 ''Tanggal'' = Inr tg
         \<and> getitem df2 ''Jumlah'' = Inr jm
         \<and> getitem df2 ''Total_Penjualan'' = Inr tp
         \<and> traverse (astype_int P) (map (fillna (Finite 0)) (to_numeric P jm)) = Inr qs
         \<and> length qs = length jm
         \<and> ''Kategori'' \<in> set (columns df2) \<and> ''Nama_Item'' \<in> set (columns df2)
         \<and> df = map_column ''Nama_Item'' (\<lambda>c. Text (astype_str P (fillna_text ''Tidak diketahui'' c)))
              (map_column ''Kategori'' (\<lambda>c. Text (astype_str P (fillna_text ''Tidak diketahui'' c)))
              (set_column ''Total_Penjualan'' (total_series P tp)
              (set_column ''Jumlah'' (map Integer qs)
              (set_column ''Tanggal'' (to_datetime P tg) df2))))"
proof -
  let ?fT = "\<lambda>c. Text (astype_str P (fillna_text ''Tidak diketahui'' c))"
  from assms obtain df3 df4 df5 df6 where
    3: "assign_series ''Tanggal'' (\<lambda>s. Inr (to_datetime P s)) df2 = Inr df3" and
    4: "assign_series ''Jumlah'' (jumlah_series P) df3 = Inr df4" and
    5: "assign_series ''Total_Penjualan'' (\<lambda>s. Inr (total_series P s)) df4 = Inr df5" and
    6: "assign_columns ''Kategori'' ?fT df5 = Inr df6" and
    7: "assign_columns ''Nama_Item'' ?fT df6 = Inr df"
    unfolding coerce_def and_then_Inr_iff by blast
  from assign_series_Inr [OF 3] obtain tg where tg: "getitem df2 ''Tanggal'' = Inr tg"
    and df3: "df3 = set_column ''Tanggal'' (to_datetime P tg) df2" by auto
  from assign_series_Inr [OF 4] obtain jm s' where jm3: "getitem df3 ''Jumlah'' = Inr jm"
    and js: "jumlah_series P jm = Inr s'" and df4: "df4 = set_column ''Jumlah'' s' df3" by auto
  from jumlah_series_Inr [OF js] obtain qs where
    qs: "traverse (astype_int P) (map (fillna (Finite 0)) (to_numeric P jm)) = Inr qs"
    and s': "s' = map Integer qs" and lq: "length qs = length jm" by auto
  from assign_series_Inr [OF 5] obtain tp where tp4: "getitem df4 ''Total_Penjualan'' = Inr tp"
    and df5: "df5 = set_column ''Total_Penjualan'' (total_series P tp) df4" by auto
  from assign_columns_Inr [OF 6] have df6: "df6 = map_column ''Kategori'' ?fT df5"
    and k5: "''Kategori'' \<in> set (columns df5)" by simp_all
  from assign_columns_Inr [OF 7] have df: "df = map_column ''Nama_Item'' ?fT df6"
    and n6: "''Nama_Item'' \<in> set (columns df6)" by simp_all
  from jm3 have jm: "getitem df2 ''Jumlah'' = Inr jm"
    by (simp add: df3 getitem_set_column_other)
  from tp4 have tp: "getitem df2 ''Total_Penjualan'' = Inr tp"
    by (simp add: df4 df3 getitem_set_column_other)
  from k5 have k: "''Kategori'' \<in> set (columns df2)" by (simp add: df5 df4 df3)
  from n6 have n: "''Nama_Item'' \<in> set (columns df2)" by (simp add: df6 df5 df4 df3)
  show ?thesis
  proof (intro exI conjI)
    show "getitem df2 ''Tanggal'' = Inr tg" by (rule tg)
    show "getitem df2 ''Jumlah'' = Inr jm" by (rule jm)
    show "getitem df2 ''Total_Penjualan'' = Inr tp" by (rule tp)
    show "traverse (astype_int P) (map (fillna (Finite 0)) (to_numeric P jm)) = Inr qs" by (rule qs)
    show "length qs = length jm" by (rule lq)
    show "''Kategori'' \<in> set (columns df2)" by (rule k)
    show "''Nama_Item'' \<in> set (columns df2)" by (rule n)
    show "df = map_column ''Nama_Item'' ?fT (map_column ''Kategori'' ?fT
              (set_column ''Total_Penjualan'' (total_series P tp)
              (set_column ''Jumlah'' (map Integer qs)
              (set_column ''Tanggal'' (to_datetime P tg) df2))))"
      by (simp add: df df6 df5 df4 df3 s')
  qed
qed

lemma snd_rename_columns [simp]: "map snd (rename_columns f df) = map snd df"
  by (induction df) (auto simp: rename_columns_def)

lemma snd_resolve_columns [simp]: "map snd (resolve_columns P lm cols df) = map snd df"
  by (induction cols arbitrary: df) (auto simp: rename_column_def split: option.splits)

lemma snd_normalise_columns: "map snd (normalise_columns P df0) = map snd df0"
  by (simp add: normalise_columns_def Let_def)

lemma lengths_snd: "map (\<lambda>(c, s). length s) df = map length (map snd df)"
  by (induction df) auto

lemma lengths_normalise_columns:
  "map (\<lambda>(c, s). length s) (normalise_columns P df0) = map (\<lambda>(c, s). length s) df0"
  by (simp only: lengths_snd snd_normalise_columns)


lemma lengths_na_filter:
  "map (\<lambda>(c, s). length s) (map (\<lambda>(c, s). (c, map (na_filter P) s)) sheet)
     = map (\<lambda>(c, s). length s) sheet"
  by (induction sheet) auto






lemma trunc_of_int [simp]: "trunc (of_int n) = n"
  by (simp add: trunc_def)




text \<open>The sample sheet, step by step.\<close>

lemma strip_labels:
  "strip P '' tanggal'' = ''tanggal''" "strip P ''tanggal'' = ''tanggal''"
  "strip P ''Tanggal'' = ''Tanggal''" "strip P ''Kategori'' = ''Kategori''"
  "strip P ''NAMA_ITEM'' = ''NAMA_ITEM''" "strip P ''Nama_Item'' = ''Nama_Item''"
  "strip P ''Jumlah'' = ''Jumlah''" "strip P ''Total_Penjualan'' = ''Total_Penjualan''"
  by (simp_all add: strip_def is_ascii_def ascii_strip_def is_space_def)

lemma lower_expected:
  "lower P ''Tanggal'' = ''tanggal''" "lower P ''Kategori'' = ''kategori''"
  "lower P ''Nama_Item'' = ''nama_item''" "lower P ''Jumlah'' = ''jumlah''"
  "lower P ''Total_Penjualan'' = ''total_penjualan''"
  by (simp_all add: lower_def is_ascii_def lower_char_def)

lemma lower_labels:
  "lower P ''tanggal'' = ''tanggal''" "lower P ''NAMA_ITEM'' = ''nama_item''"
  by (simp_all add: lower_def is_ascii_def lower_char_def)

lemma read_demo:
  "read_excel demo_files demo_library ''dataset_clean.xlsx'' =
     Inr [('' tanggal'', [Timestamp 1704067200000000000, Timestamp 1704067200000000000, Missing]),
          (''Kategori'', [Text ''Coffee'', Text ''Food'', Missing]),
          (''NAMA_ITEM'', [Text ''Latte'', Text ''Croissant'', Text ''Tea'']),
          (''Jumlah'', [Integer 2, Float (Finite (3 / 2)), Text ''x'']),
          (''Total_Penjualan'', [Integer 50000, Integer 25000, Missing])]"
  by (simp add: read_excel_def demo_files_def demo_file_def na_filter_def demo_library_def)

lemma lm_demo:
  "lower_map P [''tanggal'', ''Kategori'', ''NAMA_ITEM'', ''Jumlah'', ''Total_Penjualan''] =
    [''tanggal'' \<mapsto> ''tanggal'', ''kategori'' \<mapsto> ''Kategori'', ''nama_item'' \<mapsto> ''NAMA_ITEM'',
     ''jumlah'' \<mapsto> ''Jumlah'', ''total_penjualan'' \<mapsto> ''Total_Penjualan'']"
  by (simp add: lower_map_def lower_expected lower_labels)

lemma normalise_demo:
  "normalise_columns P
     [('' tanggal'', [Timestamp 1704067200000000000, Timestamp 1704067200000000000, Missing]),
      (''Kategori'', [Text ''Coffee'', Text ''Food'', Missing]),
      (''NAMA_ITEM'', [Text ''Latte'', Text ''Croissant'', Text ''Tea'']),
      (''Jumlah'', [Integer 2, Float (Finite (3 / 2)), Text ''x'']),
      (''Total_Penjualan'', [Integer 50000, Integer 25000, Missing])] =
     [(''Tanggal'', [Timestamp 1704067200000000000, Timestamp 1704067200000000000, Missing]),
      (''Kategori'', [Text ''Coffee'', Text ''Food'', Missing]),
      (''Nama_Item'', [Text ''Latte'', Text ''Croissant'', Text ''Tea'']),
      (''Jumlah'', [Integer 2, Float (Finite (3 / 2)), Text ''x'']),
      (''Total_Penjualan'', [Integer 50000, Integer 25000, Missing])]"
  by (simp add: normalise_columns_def rename_columns_def strip_labels Let_def)
    (simp add: columns_def lm_demo expected_def lower_expected rename_column_def
      rename_columns_def)

lemma trunc_examples:
  "trunc (3 / 2) = 1" "trunc 0 = 0" "trunc 1 = 1" "trunc 2 = 2" "trunc (- 2) = - 2"
  by (simp_all add: trunc_def)

lemma coerce_demo:
  "coerce demo_library
     [(''Tanggal'', [Timestamp 1704067200000000000, Timestamp 1704067200000000000, Missing]),
      (''Kategori'', [Text ''Coffee'', Text ''Food'', Missing]),
      (''Nama_Item'', [Text ''Latte'', Text ''Croissant'', Text ''Tea'']),
      (''Jumlah'', [Integer 2, Float (Finite (3 / 2)), Text ''x'']),
      (''Total_Penjualan'', [Integer 50000, Integer 25000, Missing])] = Inr demo_table"
  by (simp add: coerce_def assign_series_def assign_columns_def getitem_def series_named_def
      map_column_def set_column_def columns_def to_datetime_def jumlah_series_def
      total_series_def to_numeric_def fillna_def astype_int_def trunc_examples
      fillna_text_def astype_str_def demo_library_def demo_table_def)

lemma load_demo: "load_data demo_files demo_library ''dataset_clean.xlsx'' = Inr demo_table"
  by (simp add: load_data_def read_demo normalise_demo coerce_demo)




subsection \<open>Column resolution\<close>

lemma fold_lower_Some:
  "fold (\<lambda>c m. m(lower P c \<mapsto> c)) cols m k = Some x \<Longrightarrow>
     (x \<in> set cols \<and> lower P x = k) \<or> m k = Some x"
proof (induction cols arbitrary: m)
  case Nil
  then show ?case by simp
next
  case (Cons c cols)
  from Cons.IH [of "m(lower P c \<mapsto> c)"] Cons.prems
  have "(x \<in> set cols \<and> lower P x = k) \<or> (m(lower P c \<mapsto> c)) k = Some x" by simp
  then show ?case by (auto split: if_splits)
qed

lemma lower_map_Some: "lower_map P cols k = Some x \<Longrightarrow> x \<in> set cols \<and> lower P x = k"
  using fold_lower_Some [of P cols Map.empty k x] by (simp add: lower_map_def)

lemma fold_lower_defined:
  "k \<in> lower P ` set cols \<or> m k \<noteq> None \<Longrightarrow> fold (\<lambda>c m. m(lower P c \<mapsto> c)) cols m k \<noteq> None"
proof (induction cols arbitrary: m)
  case Nil
  then show ?case by simp
next
  case (Cons c cols)
  from Cons.prems have "k \<in> lower P ` set cols \<or> (m(lower P c \<mapsto> c)) k \<noteq> None" by auto
  with Cons.IH [of "m(lower P c \<mapsto> c)"] show ?case by simp
qed

lemma lower_map_defined: "k \<in> lower P ` set cols \<Longrightarrow> \<exists>x. lower_map P cols k = Some x"
  using fold_lower_defined [of k P cols Map.empty] by (auto simp: lower_map_def)

lemma fold_lower_rename:
  assumes "\<And>x. lower P (g x) = lower P x" and "\<And>k. m' k = map_option g (m k)"
  shows "fold (\<lambda>c m. m(lower P c \<mapsto> c)) (map g cols) m' k
           = map_option g (fold (\<lambda>c m. m(lower P c \<mapsto> c)) cols m k)"
  using assms(2)
proof (induction cols arbitrary: m m')
  case Nil
  then show ?case by simp
next
  case (Cons c cols)
  have "(m'(lower P (g c) \<mapsto> g c)) k = map_option g ((m(lower P c \<mapsto> c)) k)" for k
    using Cons.prems by (simp add: assms(1))
  from Cons.IH [of "m'(lower P (g c) \<mapsto> g c)" "m(lower P c \<mapsto> c)", OF this] show ?case by simp
qed

lemma lower_map_rename:
  assumes "\<And>x. lower P (g x) = lower P x"
  shows "lower_map P (map g cols) k = map_option g (lower_map P cols k)"
  unfolding lower_map_def by (rule fold_lower_rename [OF assms]) simp

lemma resolve_columns_cong:
  "\<forall>c\<in>set cols. lm (lower P c) = lm' (lower P c) \<Longrightarrow>
     resolve_columns P lm cols df = resolve_columns P lm' cols df"
  by (induction cols arbitrary: df) simp_all

lemma length_rename_column [simp]: "length (rename_column old new df) = length df"
  by (simp add: rename_column_def rename_columns_def)

lemma length_resolve_columns [simp]: "length (resolve_columns P lm cols df) = length df"
  by (induction cols arbitrary: df) (auto split: option.splits)

lemma fst_rename_column_nth:
  "i < length df \<Longrightarrow>
     fst (rename_column old new df ! i) = (if fst (df ! i) = old then new else fst (df ! i))"
  by (simp add: rename_column_def rename_columns_def case_prod_beta)

lemma columns_rename_column:
  "columns (rename_column old new df) = map (\<lambda>c. if c = old then new else c) (columns df)"
  by (simp add: rename_column_def rename_columns_def columns_def case_prod_beta comp_def)

lemma resolve_keeps_label:
  assumes "\<forall>c\<in>set cols. lm (lower P c) \<noteq> Some x" and "i < length df" and "fst (df ! i) = x"
  shows "fst (resolve_columns P lm cols df ! i) = x"
  using assms
proof (induction cols arbitrary: df)
  case Nil
  then show ?case by simp
next
  case (Cons c cols)
  let ?df' = "if c \<notin> set (columns df) then
          (case lm (lower P c) of Some old \<Rightarrow> rename_column old c df | None \<Rightarrow> df) else df"
  have len: "i < length ?df'" using Cons.prems(2) by (auto split: option.splits)
  have lab: "fst (?df' ! i) = x"
    using Cons.prems by (auto simp: fst_rename_column_nth split: option.splits)
  from Cons.prems(1) have "\<forall>c\<in>set cols. lm (lower P c) \<noteq> Some x" by simp
  from Cons.IH [OF this len lab] show ?case by simp
qed

lemma resolve_renames_label:
  assumes wf: "\<And>k x. lm k = Some x \<Longrightarrow> lower P x = k"
    and "distinct (map (lower P) cols)" and "col \<in> set cols" and "col \<notin> set (columns df)"
    and "lm (lower P col) = Some old" and "i < length df" and "fst (df ! i) = old"
  shows "fst (resolve_columns P lm cols df ! i) = col"
  using assms(2-)
proof (induction cols arbitrary: df)
  case Nil
  then show ?case by simp
next
  case (Cons c cols)
  let ?df' = "if c \<notin> set (columns df) then
          (case lm (lower P c) of Some x \<Rightarrow> rename_column x c df | None \<Rightarrow> df) else df"
  have res: "resolve_columns P lm (c # cols) df = resolve_columns P lm cols ?df'" by simp
  have len: "i < length ?df'" using Cons.prems(5) by (auto split: option.splits)
  show ?case
  proof (cases "c = col")
    case True
    then have df': "?df' = rename_column old col df" using Cons.prems by simp
    have lab: "fst (?df' ! i) = col"
      unfolding df' using Cons.prems by (simp add: fst_rename_column_nth)
    have "lm (lower P c') \<noteq> Some col" if "c' \<in> set cols" for c'
    proof
      assume "lm (lower P c') = Some col"
      then have "lower P col = lower P c'" by (rule wf)
      with that True Cons.prems(1) show False by (auto simp: image_iff)
    qed
    then have "\<forall>c'\<in>set cols. lm (lower P c') \<noteq> Some col" by blast
    from resolve_keeps_label [OF this len lab] res show ?thesis by simp
  next
    case False
    with Cons.prems have mem: "col \<in> set cols" by simp
    have neq: "x \<noteq> old" if "lm (lower P c) = Some x" for x
    proof
      assume "x = old"
      with that have "lower P old = lower P c" using wf by blast
      moreover have "lower P old = lower P col" using wf Cons.prems(4) by blast
      ultimately show False using mem Cons.prems(1) by (auto simp: image_iff)
    qed
    have lab: "fst (?df' ! i) = old"
      using Cons.prems neq by (auto simp: fst_rename_column_nth split: option.splits)
    have notin: "col \<notin> set (columns ?df')"
      using Cons.prems(3) False by (auto simp: columns_rename_column split: option.splits)
    from Cons.prems(1) have "distinct (map (lower P) cols)" by simp
    from Cons.IH [OF this mem notin Cons.prems(4) len lab] res show ?thesis by simp
  qed
qed

lemma columns_rename_columns: "columns (rename_columns f df) = map f (columns df)"
  by (simp add: rename_columns_def columns_def case_prod_beta comp_def)

lemma distinct_lower_expected: "distinct (map (lower P) expected)"
  by (simp add: expected_def lower_expected)

lemma resolved_label:
  assumes "col \<in> set expected" and "col \<notin> set (map (strip P) (columns raw))"
    and "lower P col \<in> set (map (\<lambda>c. lower P (strip P c)) (columns raw))"
  shows "\<exists>old. lower_map P (map (strip P) (columns raw)) (lower P col) = Some old
           \<and> old \<in> set (map (strip P) (columns raw)) \<and> lower P old = lower P col
           \<and> (\<forall>i<length raw. strip P (fst (raw ! i)) = old \<longrightarrow> fst (normalise_columns P raw ! i) = col)"
proof -
  let ?df1 = "rename_columns (strip P) raw"
  let ?names = "map (strip P) (columns raw)"
  let ?lm = "lower_map P ?names"
  have cols: "columns ?df1 = ?names" by (rule columns_rename_columns)
  from assms(3) have "lower P col \<in> lower P ` set ?names" by (auto simp: image_iff)
  then obtain old where old: "?lm (lower P col) = Some old" using lower_map_defined by blast
  note o = lower_map_Some [OF old]
  have n: "normalise_columns P raw = resolve_columns P ?lm expected ?df1"
    by (simp add: normalise_columns_def Let_def cols)
  have pos: "fst (normalise_columns P raw ! i) = col"
    if "i < length raw" and "strip P (fst (raw ! i)) = old" for i
  proof -
    have len: "i < length ?df1" using that(1) by (simp add: rename_columns_def)
    have lab: "fst (?df1 ! i) = old"
      using that by (simp add: rename_columns_def case_prod_beta)
    have notin: "col \<notin> set (columns ?df1)" using assms(2) cols by simp
    have wf: "\<And>k x. ?lm k = Some x \<Longrightarrow> lower P x = k" using lower_map_Some by blast
    from resolve_renames_label [of ?lm P expected col ?df1 old i, OF wf distinct_lower_expected
        assms(1) notin old len lab] n
    show ?thesis by simp
  qed
  from old o pos show ?thesis by blast
qed


lemma tanggal_labels:
  "strip P ''tanggal'' = ''tanggal''" "strip P ''Tanggal'' = ''Tanggal''"
  "lower P ''tanggal'' = ''tanggal''" "lower P ''Tanggal'' = ''tanggal''"
  by (simp_all add: strip_labels lower_expected lower_labels)

lemma rename_columns_cong:
  "(\<And>c. c \<in> set (columns df) \<Longrightarrow> f c = g c) \<Longrightarrow> rename_columns f df = rename_columns g df"
  by (induction df) (auto simp: rename_columns_def columns_def)

lemma rename_columns_comp:
  "rename_columns f (rename_columns g df) = rename_columns (\<lambda>c. f (g c)) df"
  by (induction df) (auto simp: rename_columns_def)

lemma rename_columns_id:
  "(\<And>c. c \<in> set (columns df) \<Longrightarrow> f c = c) \<Longrightarrow> rename_columns f df = df"
  by (induction df) (auto simp: rename_columns_def columns_def)

lemma normalise_tanggal:
  assumes H: "\<forall>c\<in>set (columns raw). lower P (strip P c) = ''tanggal'' \<longrightarrow> c = ''tanggal''"
  shows "normalise_columns P (rename_column ''tanggal'' ''Tanggal'' raw) = normalise_columns P raw"
proof (cases "''tanggal'' \<in> set (columns raw)")
  case False
  then have "rename_column ''tanggal'' ''Tanggal'' raw = raw"
    by (auto simp: rename_column_def intro!: rename_columns_id)
  then show ?thesis by simp
next
  case True
  let ?g = "\<lambda>x. if x = ''tanggal'' then ''Tanggal'' else x"
  let ?raw' = "rename_column ''tanggal'' ''Tanggal'' raw"
  let ?df1 = "rename_columns (strip P) raw"
  let ?names = "map (strip P) (columns raw)"
  let ?lm = "lower_map P ?names"
  let ?lm' = "lower_map P (map ?g ?names)"
  let ?rest = "[''Kategori'', ''Nama_Item'', ''Jumlah'', ''Total_Penjualan'']"
  have lg: "lower P (?g x) = lower P x" for x by (simp add: tanggal_labels)
  have comm: "strip P (?g c) = ?g (strip P c)" if "c \<in> set (columns raw)" for c
  proof (cases "c = ''tanggal''")
    case True
    then show ?thesis by (simp add: tanggal_labels)
  next
    case False
    with H that have "lower P (strip P c) \<noteq> ''tanggal''" by blast
    then have "strip P c \<noteq> ''tanggal''" using tanggal_labels(3) [of P] by metis
    with False show ?thesis by simp
  qed
  have df1': "rename_columns (strip P) ?raw' = rename_column ''tanggal'' ''Tanggal'' ?df1"
    unfolding rename_column_def rename_columns_comp
    by (rule rename_columns_cong) (rule comm)
  have cols: "columns ?df1 = ?names" by (rule columns_rename_columns)
  have cols': "columns (rename_columns (strip P) ?raw') = map ?g ?names"
    by (simp add: df1' columns_rename_column cols)
  have mem: "''tanggal'' \<in> set ?names"
    using True tanggal_labels(1) [of P] by (force simp: image_iff)
  have notin: "''Tanggal'' \<notin> set ?names"
  proof
    assume "''Tanggal'' \<in> set ?names"
    then obtain c where c: "c \<in> set (columns raw)" and sc: "strip P c = ''Tanggal''" by auto
    then have "lower P (strip P c) = ''tanggal''" by (simp add: tanggal_labels)
    with H c have "c = ''tanggal''" by blast
    with sc show False by (simp add: tanggal_labels)
  qed
  from mem have "lower P ''Tanggal'' \<in> lower P ` set ?names"
    using tanggal_labels(3,4) [of P] by (metis imageI)
  then obtain old where old: "?lm (lower P ''Tanggal'') = Some old"
    using lower_map_defined by blast
  from lower_map_Some [OF old] obtain c where c: "c \<in> set (columns raw)"
    and oc: "old = strip P c" and lo: "lower P old = ''tanggal''"
    by (auto simp: tanggal_labels)
  with H have "c = ''tanggal''" by blast
  with oc have old_eq: "old = ''tanggal''" by (simp add: tanggal_labels)
  have ren: "?lm' k = map_option ?g (?lm k)" for k
    by (rule lower_map_rename [of P ?g, OF lg])
  have agree: "\<forall>c\<in>set ?rest. ?lm (lower P c) = ?lm' (lower P c)"
  proof
    fix c assume c: "c \<in> set ?rest"
    then have ne: "lower P c \<noteq> ''tanggal''" by (auto simp: lower_expected)
    show "?lm (lower P c) = ?lm' (lower P c)"
    proof (cases "?lm (lower P c)")
      case None
      then show ?thesis by (subst ren) simp
    next
      case (Some x)
      from lower_map_Some [OF Some] ne have "x \<noteq> ''tanggal''"
        using tanggal_labels(3) [of P] by metis
      with Some show ?thesis by (subst ren) simp
    qed
  qed
  have e: "expected = ''Tanggal'' # ?rest" by (simp add: expected_def)
  have 1: "normalise_columns P raw = resolve_columns P ?lm ?rest (rename_column ''tanggal'' ''Tanggal'' ?df1)"
    unfolding normalise_columns_def Let_def cols e resolve_columns.simps(2) [of _ _ "''Tanggal''"]
    using notin old old_eq by (simp del: resolve_columns.simps)
  have in': "''Tanggal'' \<in> set (map ?g ?names)" using mem by (auto simp: image_iff)
  have 2: "normalise_columns P ?raw' = resolve_columns P ?lm' ?rest (rename_column ''tanggal'' ''Tanggal'' ?df1)"
    unfolding normalise_columns_def Let_def cols' e resolve_columns.simps(2) [of _ _ "''Tanggal''"]
    using in' by (simp only: df1' simp_thms if_False)
  show ?thesis by (simp only: 1 2 resolve_columns_cong [OF agree])
qed


lemma lower_map_snoc: "lower_map P (cols @ [c]) = (lower_map P cols)(lower P c \<mapsto> c)"
  by (simp add: lower_map_def)

lemma lower_map_last:
  assumes "j < length cols" and "lower P (cols ! j) = k"
    and "\<forall>i<length cols. j < i \<longrightarrow> lower P (cols ! i) \<noteq> k"
  shows "lower_map P cols k = Some (cols ! j)"
  using assms
proof (induction cols arbitrary: j rule: rev_induct)
  case Nil
  then show ?case by simp
next
  case (snoc c cols)
  show ?case
  proof (cases "j = length cols")
    case True
    with snoc.prems(2) show ?thesis by (simp add: lower_map_snoc)
  next
    case False
    with snoc.prems(1) have j: "j < length cols" by simp
    from snoc.prems(3) j have c: "lower P c \<noteq> k"
      by (auto dest: spec [of _ "length cols"])
    from snoc.prems(2) j have 2: "lower P (cols ! j) = k" by (simp add: nth_append)
    have 3: "\<forall>i<length cols. j < i \<longrightarrow> lower P (cols ! i) \<noteq> k"
    proof (intro allI impI)
      fix i assume i: "i < length cols" and "j < i"
      with snoc.prems(3) have "lower P ((cols @ [c]) ! i) \<noteq> k" by simp
      with i show "lower P (cols ! i) \<noteq> k" by (simp add: nth_append)
    qed
    from snoc.IH [OF j 2 3] c j show ?thesis by (simp add: lower_map_snoc nth_append)
  qed
qed

lemma na_filter_rename_column:
  "map (\<lambda>(c, s). (c, map (na_filter P) s)) (rename_column a b sheet)
     = rename_column a b (map (\<lambda>(c, s). (c, map (na_filter P) s)) sheet)"
  by (induction sheet) (auto simp: rename_column_def rename_columns_def)

lemma columns_na_filter [simp]:
  "columns (map (\<lambda>(c, s). (c, map (na_filter P) s)) sheet) = columns sheet"
  by (induction sheet) (auto simp: columns_def)

lemma tanggal_position:
  assumes H: "\<forall>c\<in>set (columns sheet). lower P (strip P c) = ''tanggal'' \<longrightarrow> c = ''tanggal''"
    and i: "i < length sheet" and lab: "fst (sheet ! i) = ''tanggal''"
  shows "fst (normalise_columns P sheet ! i) = ''Tanggal''"
proof -
  let ?names = "map (strip P) (columns sheet)"
  have mem: "''tanggal'' \<in> set (columns sheet)"
    using i lab by (force simp: columns_def in_set_conv_nth)
  have 1: "''Tanggal'' \<in> set expected" by (simp add: expected_def)
  have 2: "''Tanggal'' \<notin> set ?names"
  proof
    assume "''Tanggal'' \<in> set ?names"
    then obtain c where c: "c \<in> set (columns sheet)" and sc: "strip P c = ''Tanggal''" by auto
    then have "lower P (strip P c) = ''tanggal''" by (simp add: tanggal_labels)
    with H c have "c = ''tanggal''" by blast
    with sc show False by (simp add: tanggal_labels)
  qed
  have 3: "lower P ''Tanggal'' \<in> set (map (\<lambda>c. lower P (strip P c)) (columns sheet))"
    using mem by (force simp: tanggal_labels image_iff)
  from resolved_label [OF 1 2 3] obtain old where
    o: "old \<in> set ?names" and lo: "lower P old = lower P ''Tanggal''"
    and pos: "\<forall>i<length sheet. strip P (fst (sheet ! i)) = old \<longrightarrow>
                fst (normalise_columns P sheet ! i) = ''Tanggal''"
    by blast
  from o obtain c where c: "c \<in> set (columns sheet)" and oc: "old = strip P c" by auto
  with lo have "lower P (strip P c) = ''tanggal''" by (simp add: tanggal_labels)
  with H c have "c = ''tanggal''" by blast
  with oc have "old = ''tanggal''" by (simp add: tanggal_labels)
  with pos i lab show ?thesis by (simp add: tanggal_labels)
qed

text \<open>
  Claim C5. First part: when an expected name is not among the trimmed labels of the sheet
  but some trimmed label equals it up to case, the dictionary of line 36 holds such a label
  \<open>old\<close> for it (the last one in column order, should there be several), and after
  lines 32-40 every column whose trimmed label is \<open>old\<close> carries the expected name; the
  cells of all columns are untouched. Second part: when \<^verbatim>\<open>tanggal\<close> is the only label
  of the sheet that matches \<^verbatim>\<open>Tanggal\<close> up to case and padding, the column of that
  label is named \<^verbatim>\<open>Tanggal\<close> after lines 32-40, and the sheet and the same sheet with
  that header written \<^verbatim>\<open>Tanggal\<close> normalise to the same frame, so loading either gives
  the same result, table or error. (With a second matching label, say \<^verbatim>\<open>TANGGAL\<close>,
  the sheet has no single date column and the dictionary's last entry decides.) Trimming
  and lowercasing are Python's: fixed on ASCII labels, the library's on any other.
\<close>

theorem column_resolution:
  "(col \<in> set expected \<and> col \<notin> set (map (strip P) (columns raw))
      \<and> lower P col \<in> set (map (\<lambda>c. lower P (strip P c)) (columns raw)) \<longrightarrow>
      (\<exists>old. lower_map P (map (strip P) (columns raw)) (lower P col) = Some old
         \<and> old \<in> set (map (strip P) (columns raw)) \<and> lower P old = lower P col
         \<and> (\<forall>j<length raw.
               lower P (strip P (fst (raw ! j))) = lower P col
               \<and> (\<forall>k<length raw. j < k \<longrightarrow> lower P (strip P (fst (raw ! k))) \<noteq> lower P col)
               \<longrightarrow> old = strip P (fst (raw ! j)))
         \<and> map snd (normalise_columns P raw) = map snd raw
         \<and> (\<forall>i<length raw. strip P (fst (raw ! i)) = old \<longrightarrow>
               fst (normalise_columns P raw ! i) = col)))
   \<and> ((\<forall>c\<in>set (columns sheet). lower P (strip P c) = ''tanggal'' \<longrightarrow> c = ''tanggal'') \<longrightarrow>
        (\<forall>i<length sheet. fst (sheet ! i) = ''tanggal'' \<longrightarrow>
            fst (normalise_columns P sheet ! i) = ''Tanggal''
          \<and> snd (normalise_columns P sheet ! i) = snd (sheet ! i))
        \<and> normalise_columns P (rename_column ''tanggal'' ''Tanggal'' sheet) = normalise_columns P sheet
        \<and> (fs path = Inr sheet \<and> fs' path = Inr (rename_column ''tanggal'' ''Tanggal'' sheet) \<longrightarrow>
             load_data fs' P path = load_data fs P path))"
proof (intro conjI impI allI)
  assume a: "col \<in> set expected \<and> col \<notin> set (map (strip P) (columns raw))
      \<and> lower P col \<in> set (map (\<lambda>c. lower P (strip P c)) (columns raw))"
  then have 1: "col \<in> set expected" and 2: "col \<notin> set (map (strip P) (columns raw))"
    and 3: "lower P col \<in> set (map (\<lambda>c. lower P (strip P c)) (columns raw))" by blast+
  from resolved_label [OF 1 2 3] obtain old where
    o1: "lower_map P (map (strip P) (columns raw)) (lower P col) = Some old"
    and o2: "old \<in> set (map (strip P) (columns raw))" and o3: "lower P old = lower P col"
    and o4: "\<forall>i<length raw. strip P (fst (raw ! i)) = old \<longrightarrow>
               fst (normalise_columns P raw ! i) = col"
    by blast
  have o5: "old = strip P (fst (raw ! j))"
    if "j < length raw" and "lower P (strip P (fst (raw ! j))) = lower P col
               \<and> (\<forall>k<length raw. j < k \<longrightarrow> lower P (strip P (fst (raw ! k))) \<noteq> lower P col)"
    for j
  proof -
    let ?names = "map (strip P) (columns raw)"
    have n: "?names ! i = strip P (fst (raw ! i))" if "i < length raw" for i
      using that by (simp add: columns_def)
    have len: "length ?names = length raw" by (simp add: columns_def)
    have a: "j < length ?names" using that(1) len by simp
    have b: "lower P (?names ! j) = lower P col" using that n by simp
    have c: "\<forall>i<length ?names. j < i \<longrightarrow> lower P (?names ! i) \<noteq> lower P col"
      using that(2) n len by simp
    from lower_map_last [OF a b c] o1 n [OF that(1)] show ?thesis by simp
  qed
  show "\<exists>old. lower_map P (map (strip P) (columns raw)) (lower P col) = Some old
         \<and> old \<in> set (map (strip P) (columns raw)) \<and> lower P old = lower P col
         \<and> (\<forall>j<length raw.
               lower P (strip P (fst (raw ! j))) = lower P col
               \<and> (\<forall>k<length raw. j < k \<longrightarrow> lower P (strip P (fst (raw ! k))) \<noteq> lower P col)
               \<longrightarrow> old = strip P (fst (raw ! j)))
         \<and> map snd (normalise_columns P raw) = map snd raw
         \<and> (\<forall>i<length raw. strip P (fst (raw ! i)) = old \<longrightarrow>
               fst (normalise_columns P raw ! i) = col)"
  proof (intro exI conjI allI impI)
    show "lower_map P (map (strip P) (columns raw)) (lower P col) = Some old" by (rule o1)
    show "old \<in> set (map (strip P) (columns raw))" by (rule o2)
    show "lower P old = lower P col" by (rule o3)
    show "old = strip P (fst (raw ! j))"
      if "j < length raw" and "lower P (strip P (fst (raw ! j))) = lower P col
               \<and> (\<forall>k<length raw. j < k \<longrightarrow> lower P (strip P (fst (raw ! k))) \<noteq> lower P col)"
      for j
      using that by (rule o5)
    show "map snd (normalise_columns P raw) = map snd raw" by (rule snd_normalise_columns)
    show "fst (normalise_columns P raw ! i) = col"
      if "i < length raw" and "strip P (fst (raw ! i)) = old" for i
      using o4 that by blast
  qed
next
  fix i
  assume H: "\<forall>c\<in>set (columns sheet). lower P (strip P c) = ''tanggal'' \<longrightarrow> c = ''tanggal''"
    and i: "i < length sheet" and lab: "fst (sheet ! i) = ''tanggal''"
  then show "fst (normalise_columns P sheet ! i) = ''Tanggal''" by (rule tanggal_position)
  have "map snd (normalise_columns P sheet) ! i = map snd sheet ! i"
    by (simp only: snd_normalise_columns)
  moreover have "length (normalise_columns P sheet) = length sheet"
    using arg_cong [OF snd_normalise_columns [of P sheet], of length] by simp
  ultimately show "snd (normalise_columns P sheet ! i) = snd (sheet ! i)"
    using i by simp
next
  assume H: "\<forall>c\<in>set (columns sheet). lower P (strip P c) = ''tanggal'' \<longrightarrow> c = ''tanggal''"
  then show "normalise_columns P (rename_column ''tanggal'' ''Tanggal'' sheet) = normalise_columns P sheet"
    by (rule normalise_tanggal)
next
  assume H: "\<forall>c\<in>set (columns sheet). lower P (strip P c) = ''tanggal'' \<longrightarrow> c = ''tanggal''"
    and f: "fs path = Inr sheet \<and> fs' path = Inr (rename_column ''tanggal'' ''Tanggal'' sheet)"
  let ?read = "map (\<lambda>(c, s). (c, map (na_filter P) s)) sheet"
  from H have "\<forall>c\<in>set (columns ?read). lower P (strip P c) = ''tanggal'' \<longrightarrow> c = ''tanggal''"
    by simp
  then have "normalise_columns P (rename_column ''tanggal'' ''Tanggal'' ?read)
      = normalise_columns P ?read"
    by (rule normalise_tanggal)
  with f show "load_data fs' P path = load_data fs P path"
    by (simp add: load_data_def read_excel_def na_filter_rename_column)
qed

lemma strip_demo:
  "map (strip P) (columns demo_file) =
     [''tanggal'', ''Kategori'', ''NAMA_ITEM'', ''Jumlah'', ''Total_Penjualan'']"
  by (simp add: columns_def demo_file_def strip_labels)

lemma lowercase_only:
  "\<forall>c\<in>set (columns lowercase_file). lower P (strip P c) = ''tanggal'' \<longrightarrow> c = ''tanggal''"
  by (simp add: columns_def lowercase_file_def strip_labels lower_expected lower_labels)

lemma normalise_lowercase:
  "normalise_columns P (map (\<lambda>(c, s). (c, map (na_filter demo_library) s)) lowercase_file) =
     [(''Tanggal'', [Timestamp 1704067200000000000, Timestamp 1704067200000000000]),
      (''Kategori'', [Text ''Coffee'', Text ''Food'']),
      (''Nama_Item'', [Text ''Latte'', Text ''Croissant'']),
      (''Jumlah'', [Integer 2, Integer 1]),
      (''Total_Penjualan'', [Integer 50000, Integer 25000])]"
proof -
  have 0: "map (\<lambda>(c, s). (c, map (na_filter demo_library) s)) lowercase_file = lowercase_file"
    by (simp add: lowercase_file_def na_filter_def demo_library_def)
  have 1: "rename_columns (strip P) lowercase_file = lowercase_file"
    by (simp add: rename_columns_def lowercase_file_def strip_labels)
  have 2: "lower_map P (columns lowercase_file) (lower P ''Tanggal'') = Some ''tanggal''"
    by (simp add: columns_def lowercase_file_def lower_map_def lower_expected lower_labels)
  have 3: "resolve_columns P lm expected lowercase_file =
     [(''Tanggal'', [Timestamp 1704067200000000000, Timestamp 1704067200000000000]),
      (''Kategori'', [Text ''Coffee'', Text ''Food'']),
      (''Nama_Item'', [Text ''Latte'', Text ''Croissant'']),
      (''Jumlah'', [Integer 2, Integer 1]),
      (''Total_Penjualan'', [Integer 50000, Integer 25000])]"
    if "lm (lower P ''Tanggal'') = Some ''tanggal''" for lm
    using that
    by (simp add: expected_def columns_def lowercase_file_def rename_column_def rename_columns_def)
  show ?thesis
    by (simp add: normalise_columns_def Let_def 0 1 3 [of "lower_map P (columns lowercase_file)", OF 2])
qed

lemma load_lowercase:
  "load_data (\<lambda>path. Inr lowercase_file) demo_library ''dataset_clean.xlsx'' = Inr example_table"
  by (simp add: load_data_def read_excel_def normalise_lowercase)
    (simp add: coerce_def assign_series_def assign_columns_def getitem_def series_named_def
      map_column_def set_column_def columns_def to_datetime_def jumlah_series_def
      total_series_def to_numeric_def fillna_def astype_int_def trunc_examples
      fillna_text_def astype_str_def example_table_def)

theorem column_resolution_witness:
  "''Nama_Item'' \<in> set expected
   \<and> ''Nama_Item'' \<notin> set (map (strip demo_library) (columns demo_file))
   \<and> lower demo_library ''Nama_Item''
       \<in> set (map (\<lambda>c. lower demo_library (strip demo_library c)) (columns demo_file))
   \<and> lower_map demo_library (map (strip demo_library) (columns demo_file))
         (lower demo_library ''Nama_Item'') = Some ''NAMA_ITEM''
   \<and> strip demo_library (fst (demo_file ! 2)) = ''NAMA_ITEM''
   \<and> fst (normalise_columns demo_library demo_file ! 2) = ''Nama_Item''
   \<and> fst (lowercase_file ! 0) = ''tanggal''
   \<and> fst (normalise_columns demo_library lowercase_file ! 0) = ''Tanggal''
   \<and> load_data (\<lambda>path. Inr lowercase_file) demo_library ''dataset_clean.xlsx'' = Inr example_table
   \<and> load_data (\<lambda>path. Inr (rename_column ''tanggal'' ''Tanggal'' lowercase_file)) demo_library
        ''dataset_clean.xlsx'' = Inr example_table"
proof -
  have 1: "''Nama_Item'' \<in> set expected" by (simp add: expected_def)
  have 2: "''Nama_Item'' \<notin> set (map (strip demo_library) (columns demo_file))"
    by (simp add: strip_demo)
  have 3: "lower demo_library ''Nama_Item''
       \<in> set (map (\<lambda>c. lower demo_library (strip demo_library c)) (columns demo_file))"
  proof -
    have "map (\<lambda>c. lower demo_library (strip demo_library c)) (columns demo_file)
        = map (lower demo_library) (map (strip demo_library) (columns demo_file))"
      by simp
    then show ?thesis by (simp only: strip_demo) (simp add: lower_expected lower_labels)
  qed
  have 4: "lower_map demo_library (map (strip demo_library) (columns demo_file))
         (lower demo_library ''Nama_Item'') = Some ''NAMA_ITEM''"
    by (simp add: strip_demo lm_demo lower_expected)
  have 5: "strip demo_library (fst (demo_file ! 2)) = ''NAMA_ITEM''" and 6: "2 < length demo_file"
    by (simp_all add: demo_file_def strip_labels)
  have 7: "fst (lowercase_file ! 0) = ''tanggal''" and 8: "0 < length lowercase_file"
    by (simp_all add: lowercase_file_def)
  note inst = column_resolution [of "''Nama_Item''" demo_library demo_file lowercase_file
      "\<lambda>path. Inr lowercase_file" "''dataset_clean.xlsx''"
      "\<lambda>path. Inr (rename_column ''tanggal'' ''Tanggal'' lowercase_file)"]
  from inst 1 2 3 obtain old where
    o: "lower_map demo_library (map (strip demo_library) (columns demo_file))
          (lower demo_library ''Nama_Item'') = Some old"
    and p: "\<forall>i<length demo_file. strip demo_library (fst (demo_file ! i)) = old \<longrightarrow>
               fst (normalise_columns demo_library demo_file ! i) = ''Nama_Item''"
    by blast
  from o 4 have "old = ''NAMA_ITEM''" by simp
  with p 5 6 have 9: "fst (normalise_columns demo_library demo_file ! 2) = ''Nama_Item''" by blast
  from inst lowercase_only [of demo_library] 7 8
  have 10: "fst (normalise_columns demo_library lowercase_file ! 0) = ''Tanggal''"
    by blast
  from inst lowercase_only [of demo_library]
  have "load_data (\<lambda>path. Inr (rename_column ''tanggal'' ''Tanggal'' lowercase_file)) demo_library
        ''dataset_clean.xlsx'' = load_data (\<lambda>path. Inr lowercase_file) demo_library ''dataset_clean.xlsx''"
    by blast
  with load_lowercase have 11:
    "load_data (\<lambda>path. Inr (rename_column ''tanggal'' ''Tanggal'' lowercase_file)) demo_library
        ''dataset_clean.xlsx'' = Inr example_table" by simp
  from 1 2 3 4 5 9 7 10 load_lowercase 11 show ?thesis by (intro conjI)
qed

subsection \<open>The loaded table is fit for the filter\<close>

lemma to_datetime_cells:
  "c \<in> set (to_datetime P s) \<Longrightarrow>
     as_datetime c = Inr (case c of Timestamp t \<Rightarrow> Some t | _ \<Rightarrow> None)"
  by (auto simp: to_datetime_def split: cell.splits option.splits)

lemma traverse_total: "(\<And>x. x \<in> set xs \<Longrightarrow> f x = Inr (g x)) \<Longrightarrow> traverse f xs = Inr (map g xs)"
  by (induction xs) auto

lemma rectangular_lengths:
  "rectangular df \<longleftrightarrow>
     (case map (\<lambda>(c, s). length s) df of [] \<Rightarrow> True | n # ns \<Rightarrow> \<forall>k\<in>set ns. k = n)"
  by (cases df) (auto simp: rectangular_def nrows_def list_all_iff)

text \<open>
  What the filter and the charts need of a table, \<^verbatim>\<open>load_data\<close> provides: when the
  sheet's columns all have one length, so do the table's; its \<^verbatim>\<open>Tanggal\<close> column reads
  as timestamps and NaT, its \<^verbatim>\<open>Total_Penjualan\<close> column as floats, one per row.
\<close>

theorem loaded_table_typed:
  assumes "load_data fs P path = Inr df" and "fs path = Inr sheet" and "rectangular sheet"
  shows "rectangular df
       \<and> (\<exists>ts. datetime_column df ''Tanggal'' = Inr ts \<and> length ts = nrows df)
       \<and> (\<exists>vs. float_column df ''Total_Penjualan'' = Inr vs \<and> length vs = nrows df)"
proof -
  let ?df0 = "map (\<lambda>(c, s). (c, map (na_filter P) s)) sheet"
  let ?n = "normalise_columns P ?df0"
  let ?fT = "\<lambda>x. Text (astype_str P (fillna_text ''Tidak diketahui'' x))"
  from assms(1,2) have co: "coerce P ?n = Inr df"
    by (simp add: load_data_def read_excel_def)
  from coerce_Inr [OF co] obtain tg jm tp qs where
    tg: "getitem ?n ''Tanggal'' = Inr tg" and jm: "getitem ?n ''Jumlah'' = Inr jm"
    and tp: "getitem ?n ''Total_Penjualan'' = Inr tp"
    and lq: "length qs = length jm"
    and df: "df = map_column ''Nama_Item'' ?fT (map_column ''Kategori'' ?fT
              (set_column ''Total_Penjualan'' (total_series P tp)
              (set_column ''Jumlah'' (map Integer qs)
              (set_column ''Tanggal'' (to_datetime P tg) ?n))))"
    by blast
  let ?d3 = "set_column ''Tanggal'' (to_datetime P tg) ?n"
  let ?d4 = "set_column ''Jumlah'' (map Integer qs) ?d3"
  let ?d5 = "set_column ''Total_Penjualan'' (total_series P tp) ?d4"
  have jm3: "getitem ?d3 ''Jumlah'' = Inr jm" using jm by (simp add: getitem_set_column_other)
  have tp4: "getitem ?d4 ''Total_Penjualan'' = Inr tp"
    using tp by (simp add: getitem_set_column_other)
  have l3: "map (\<lambda>(c, s). length s) ?d3 = map (\<lambda>(c, s). length s) ?n"
    using tg by (rule lengths_set_column) simp
  have l4: "map (\<lambda>(c, s). length s) ?d4 = map (\<lambda>(c, s). length s) ?d3"
    using jm3 by (rule lengths_set_column) (simp add: lq)
  have l5: "map (\<lambda>(c, s). length s) ?d5 = map (\<lambda>(c, s). length s) ?d4"
    using tp4 by (rule lengths_set_column) simp
  have "map (\<lambda>(c, s). length s) df = map (\<lambda>(c, s). length s) ?d5"
    by (subst df) simp
  also have "\<dots> = map (\<lambda>(c, s). length s) ?df0"
    by (simp only: l5 l4 l3 lengths_normalise_columns)
  also have "\<dots> = map (\<lambda>(c, s). length s) sheet"
    by (rule lengths_na_filter)
  finally have l: "map (\<lambda>(c, s). length s) df = map (\<lambda>(c, s). length s) sheet" .
  have g1: "getitem df ''Tanggal'' = Inr (to_datetime P tg)"
    by (subst df)
      (simp add: getitem_map_column_other getitem_set_column_other getitem_set_column_same [OF tg])
  have g3: "getitem df ''Total_Penjualan'' = Inr (total_series P tp)"
    by (subst df) (simp add: getitem_map_column_other getitem_set_column_same [OF tp4])
  have r: "rectangular df" using assms(3) l by (simp add: rectangular_lengths)
  let ?ts = "map (\<lambda>c. case c of Timestamp t \<Rightarrow> Some t | _ \<Rightarrow> None) (to_datetime P tg)"
  let ?vs = "map (fillna (Finite 0)) (to_numeric P tp)"
  have "traverse as_datetime (to_datetime P tg) = Inr ?ts"
    by (rule traverse_total) (rule to_datetime_cells)
  with g1 have d: "datetime_column df ''Tanggal'' = Inr ?ts"
    by (simp add: datetime_column_def)
  have "traverse as_float (total_series P tp) =
      Inr (map (\<lambda>c. case c of Float v \<Rightarrow> v | _ \<Rightarrow> Finite 0) (total_series P tp))"
    by (rule traverse_total) (auto simp: total_series_def)
  with g3 have f: "float_column df ''Total_Penjualan'' = Inr ?vs"
    by (simp add: float_column_def total_series_def comp_def)
  from getitem_length [OF r g1] have "length ?ts = nrows df" by simp
  moreover from getitem_length [OF r g3] have "length ?vs = nrows df" by simp
  ultimately show ?thesis using r d f by blast
qed

lemma demo_file_rectangular: "rectangular demo_file"
  by (simp add: rectangular_def demo_file_def nrows_def)

theorem loaded_table_typed_witness:
  "load_data demo_files demo_library ''dataset_clean.xlsx'' = Inr demo_table
   \<and> demo_files ''dataset_clean.xlsx'' = Inr demo_file
   \<and> rectangular demo_file
   \<and> rectangular demo_table
   \<and> datetime_column demo_table ''Tanggal'' =
       Inr [Some 1704067200000000000, Some 1704067200000000000, None]
   \<and> float_column demo_table ''Total_Penjualan'' = Inr [Finite 50000, Finite 25000, Finite 0]"
proof -
  have f: "demo_files ''dataset_clean.xlsx'' = Inr demo_file" by (simp add: demo_files_def)
  from loaded_table_typed [OF load_demo f demo_file_rectangular]
  have "rectangular demo_table" by blast
  with load_demo f demo_file_rectangular demo_tanggal demo_total show ?thesis by simp
qed

end
